theory Spec2Isabelle
  imports Complex_Main "HOL-Library.Word"
begin

section \<open>Python values as the report code sees them\<close>

text \<open>
  A Python \<open>str\<close> is a sequence of Unicode code points, and every slice in
  \<open>app.py\<close> counts code points. The Korean literals of the source do not fit
  into 8-bit characters, so a string is a list of code points; \<open>u\<close> embeds an
  ASCII literal.
\<close>

type_synonym ustr = "nat list"

type_synonym bytes = "8 word list"

definition u :: "string \<Rightarrow> ustr" where
  "u s = map of_char s"

text \<open>
  The analysis is whatever \<open>json.loads\<close> returned (or \<open>None\<close>), and a policy row
  is a \<open>dict\<close> of such values. A \<open>float\<close> is kept as its IEEE-754 bit pattern;
  a \<open>dict\<close> is an association list read with \<open>map_of\<close>.
\<close>

datatype json =
    JNull
  | JBool bool
  | JInt int
  | JFloat "64 word"
  | JStr ustr
  | JArr "json list"
  | JObj "(ustr \<times> json) list"

datatype error = TypeError | AttributeError | KeyError | NameError

text \<open>Sequencing of computations that may raise: the first exception wins.\<close>

definition bind :: "error + 'a \<Rightarrow> ('a \<Rightarrow> error + 'b) \<Rightarrow> error + 'b" where
  "bind m f = (case m of Inl e \<Rightarrow> Inl e | Inr x \<Rightarrow> f x)"

fun for_each :: "('a \<Rightarrow> 's \<Rightarrow> error + 's) \<Rightarrow> 'a list \<Rightarrow> 's \<Rightarrow> error + 's" where
  "for_each f [] s = Inr s"
| "for_each f (x # xs) s = bind (f x s) (for_each f xs)"

text \<open>Truth value testing (\<open>if x:\<close>, \<open>not x\<close>); a float is false when it is +0.0 or -0.0.\<close>

fun truthy :: "json \<Rightarrow> bool" where
  "truthy JNull = False"
| "truthy (JBool b) = b"
| "truthy (JInt i) = (i \<noteq> 0)"
| "truthy (JFloat w) = (take_bit 63 w \<noteq> 0)"
| "truthy (JStr s) = (s \<noteq> [])"
| "truthy (JArr xs) = (xs \<noteq> [])"
| "truthy (JObj kvs) = (kvs \<noteq> [])"

text \<open>\<open>sub in s\<close> on two strings: \<open>sub\<close> occurs somewhere in \<open>s\<close>.\<close>

fun startswith :: "ustr \<Rightarrow> ustr \<Rightarrow> bool" where
  "startswith s [] = True"
| "startswith [] (p # ps) = False"
| "startswith (c # cs) (p # ps) = (c = p \<and> startswith cs ps)"

fun contains :: "ustr \<Rightarrow> ustr \<Rightarrow> bool" where
  "contains [] sub = (sub = [])"
| "contains (c # cs) sub = (startswith (c # cs) sub \<or> contains cs sub)"

text \<open>
  \<open>k in v\<close> for a string \<open>k\<close>: key membership on a dict, element equality on a
  list, substring on a string, and \<open>TypeError\<close> on everything else.
\<close>

fun py_in :: "ustr \<Rightarrow> json \<Rightarrow> error + bool" where
  "py_in k (JObj kvs) = Inr (map_of kvs k \<noteq> None)"
| "py_in k (JArr xs) = Inr (JStr k \<in> set xs)"
| "py_in k (JStr s) = Inr (contains s k)"
| "py_in k v = Inl TypeError"

text \<open>\<open>v[k]\<close> with a string key: only a dict can answer, with \<open>KeyError\<close> for an absent key.\<close>

fun py_getitem :: "json \<Rightarrow> ustr \<Rightarrow> error + json" where
  "py_getitem (JObj kvs) k = (case map_of kvs k of None \<Rightarrow> Inl KeyError | Some x \<Rightarrow> Inr x)"
| "py_getitem v k = Inl TypeError"

text \<open>\<open>v.get(k, d)\<close>: only a dict has the method.\<close>

fun py_get :: "json \<Rightarrow> ustr \<Rightarrow> json \<Rightarrow> error + json" where
  "py_get (JObj kvs) k d = Inr (case map_of kvs k of None \<Rightarrow> d | Some x \<Rightarrow> x)"
| "py_get v k d = Inl AttributeError"

text \<open>
  \<open>v[:n]\<close>: a prefix of a list or of a string; a dict refuses the slice as a key
  (\<open>TypeError\<close>, \<open>KeyError\<close> from Python 3.12 on) and the scalars are not subscriptable.
\<close>

fun py_slice :: "nat \<Rightarrow> json \<Rightarrow> error + json" where
  "py_slice n (JArr xs) = Inr (JArr (take n xs))"
| "py_slice n (JStr s) = Inr (JStr (take n s))"
| "py_slice n v = Inl TypeError"

text \<open>The items a \<open>for\<close> loop sees: list elements, the characters of a string, the keys of a dict.\<close>

fun py_iter :: "json \<Rightarrow> error + json list" where
  "py_iter (JArr xs) = Inr xs"
| "py_iter (JStr s) = Inr (map (\<lambda>c. JStr [c]) s)"
| "py_iter (JObj kvs) = Inr (map (\<lambda>kv. JStr (fst kv)) kvs)"
| "py_iter v = Inl TypeError"

text \<open>
  A value inside an f-string: a string is inserted as it is, anything else through
  Python's \<open>str()\<close>, which is a parameter \<open>fmt\<close> of the model.
\<close>

fun py_str :: "(json \<Rightarrow> ustr) \<Rightarrow> json \<Rightarrow> ustr" where
  "py_str fmt (JStr s) = s"
| "py_str fmt v = fmt v"

text \<open>The decimal digits of a loop index.\<close>

fun str_of_nat :: "nat \<Rightarrow> ustr" where
  "str_of_nat n = (if n < 10 then [48 + n] else str_of_nat (n div 10) @ [48 + n mod 10])"

declare str_of_nat.simps [simp del]

text \<open>
  \<open>range(0, stop, step)\<close> for a positive step: the multiples of \<open>step\<close> below \<open>stop\<close>.
\<close>

definition py_range :: "nat \<Rightarrow> nat \<Rightarrow> nat list" where
  "py_range stop step = map (\<lambda>k. k * step) [0..<(stop + step - 1) div step]"

section \<open>The canvas\<close>

text \<open>
  The document is the sequence of calls made on the ReportLab canvas. The cursor \<open>y\<close>
  is a float in the source; the model computes with the exact rational, and every
  threshold the code compares it with is a whole number.
\<close>

datatype canvas_op =
    SetFont ustr nat
  | DrawString nat rat ustr
  | ShowPage
  | DrawImage bytes nat rat nat nat
  | Save

type_synonym st = "rat \<times> canvas_op list"

text \<open>A4 is 210 mm by 297 mm, and ReportLab's \<open>mm\<close> is 72 / 25.4 points.\<close>

definition height :: rat where
  "height = 297 * (72 / (254 / 10))"

definition emit :: "canvas_op \<Rightarrow> st \<Rightarrow> st" where
  "emit c s = (fst s, snd s @ [c])"

definition move :: "rat \<Rightarrow> st \<Rightarrow> st" where
  "move d s = (fst s - d, snd s)"

definition new_page :: "st \<Rightarrow> st" where
  "new_page s = (height - 50, snd s @ [ShowPage])"

definition add_heading :: "ustr \<Rightarrow> st \<Rightarrow> ustr \<Rightarrow> nat \<Rightarrow> st" where
  "add_heading font s txt sz =
     (let s1 = (if fst s < 100 then new_page s else s);
          s2 = emit (SetFont font sz) s1;
          s3 = emit (DrawString 50 (fst s2) (take 90 txt)) s2
      in move (of_nat (sz + 15)) s3)"

text \<open>The list comprehension of \<open>add_text\<close>: the slices \<open>text[i:i+max_len]\<close>.\<close>

definition text_lines :: "ustr \<Rightarrow> nat \<Rightarrow> ustr list" where
  "text_lines txt max_len =
     map (\<lambda>i. take max_len (drop i txt)) (py_range (min (length txt) 400) max_len)"

fun draw_lines :: "ustr \<Rightarrow> nat \<Rightarrow> nat \<Rightarrow> ustr list \<Rightarrow> st \<Rightarrow> st" where
  "draw_lines font sz indent [] s = s"
| "draw_lines font sz indent (line # lines) s =
     (let s1 = (if fst s < 60 then emit (SetFont font sz) (new_page s) else s);
          s2 = emit (DrawString indent (fst s1) line) s1
      in draw_lines font sz indent lines (move (of_nat (sz + 4)) s2))"

definition max_len :: "nat \<Rightarrow> nat" where
  "max_len indent = (if indent = 60 then 85 else 90)"

definition add_text :: "ustr \<Rightarrow> st \<Rightarrow> ustr \<Rightarrow> nat \<Rightarrow> nat \<Rightarrow> st" where
  "add_text font s txt sz indent =
     (let s1 = (if fst s < 80 then new_page s else s);
          s2 = emit (SetFont font sz) s1;
          lines = text_lines txt (max_len indent)
      in move 5 (draw_lines font sz indent (take 10 lines) s2))"

text \<open>The strings a canvas shows, in drawing order.\<close>

fun drawn_text :: "canvas_op \<Rightarrow> ustr list" where
  "drawn_text (DrawString x y t) = [t]"
| "drawn_text c = []"

definition drawn_texts :: "canvas_op list \<Rightarrow> ustr list" where
  "drawn_texts ops = concat (map drawn_text ops)"

section \<open>The string literals of the report\<close>

text \<open>
  The fonts, the cover labels, the nine numbered headings and the labels of the section
  bodies, code point by code point (Hangul syllables are the numbers above 44032,
  8226 is the bullet).
\<close>

definition font_cid :: ustr where
  "font_cid = u ''HYSMyeongJo-Medium''"

definition font_fallback :: ustr where
  "font_fallback = u ''Helvetica''"

definition cover_title :: ustr where
  "cover_title = [51221, 52293] @ u '' '' @ [48372, 44256, 49436]"

definition lbl_title :: ustr where
  "lbl_title = [51228, 47785] @ u '': ''"

definition lbl_category :: ustr where
  "lbl_category = [52852, 53580, 44256, 47532] @ u '': ''"

definition lbl_target :: ustr where
  "lbl_target = [45824, 49345] @ u '': ''"

definition lbl_created :: ustr where
  "lbl_created = [49373, 49457, 51068] @ u '': ''"

definition heading_1 :: ustr where
  "heading_1 = u ''1. '' @ [51221, 52293] @ u '' '' @ [44592, 54925]"

definition heading_2 :: ustr where
  "heading_2 = u ''2. '' @ [49892, 54665] @ u '' '' @ [44228, 54925]"

definition heading_3 :: ustr where
  "heading_3 = u ''3. '' @ [52964, 48036, 45768, 52992, 51060, 49496] @ u '' '' @ [51204, 47029]"

definition heading_4 :: ustr where
  "heading_4 = u ''4. '' @ [53080, 53584, 52768] @ u '' '' @ [51228, 51089] @ u '' '' @ [48652, 47532, 54532]"

definition heading_5 :: ustr where
  "heading_5 = u ''5. '' @ [47560, 52992, 54021] @ u '' '' @ [51088, 47308]"

definition heading_6 :: ustr where
  "heading_6 = u ''6. '' @ [49457, 44284] @ u '' '' @ [51648, 54364] @ u '' (KPI)''"

definition heading_7 :: ustr where
  "heading_7 = u ''7. '' @ [51060, 54644, 44288, 44228, 51088] @ u '' '' @ [44288, 47532]"

definition heading_8 :: ustr where
  "heading_8 = u ''8. '' @ [49373, 49457, 46108] @ u '' '' @ [51060, 48120, 51648]"

definition heading_9 :: ustr where
  "heading_9 = u ''9. '' @ [50689, 49345] @ u '' '' @ [54532, 47212, 54532, 53944]"

definition lbl_objective :: ustr where
  "lbl_objective = u ''['' @ [47785, 54364] @ u ''] ''"

definition lbl_target_analysis :: ustr where
  "lbl_target_analysis = u ''['' @ [45824, 49345] @ u '' '' @ [48516, 49437] @ u ''] ''"

definition lbl_key_strategies :: ustr where
  "lbl_key_strategies = u ''['' @ [54645, 49900] @ u '' '' @ [51204, 47029] @ u '']''"

definition lbl_expected_outcomes :: ustr where
  "lbl_expected_outcomes = u ''['' @ [44592, 45824] @ u '' '' @ [54952, 44284] @ u '']''"

definition bullet :: ustr where
  "bullet = [8226] @ u '' ''"

definition lbl_action_items :: ustr where
  "lbl_action_items = u ''['' @ [49892, 54665] @ u '' '' @ [54637, 47785] @ u '']''"

definition lbl_resources :: ustr where
  "lbl_resources = u ''['' @ [54596, 50836] @ u '' '' @ [51088, 50896] @ u '']''"

definition lbl_budget :: ustr where
  "lbl_budget = [50696, 49328] @ u '': ''"

definition lbl_personnel :: ustr where
  "lbl_personnel = [51064, 47141] @ u '': ''"

definition lbl_key_messages :: ustr where
  "lbl_key_messages = u ''['' @ [54645, 49900] @ u '' '' @ [47700, 49884, 51648] @ u '']''"

definition lbl_channels :: ustr where
  "lbl_channels = u ''['' @ [52292, 45328] @ u '' '' @ [51204, 47029] @ u '']''"

definition lbl_image_brief_1 :: ustr where
  "lbl_image_brief_1 = u ''['' @ [51060, 48120, 51648] @ u '' '' @ [48652, 47532, 54532] @ u '' 1]''"

definition lbl_image_brief_2 :: ustr where
  "lbl_image_brief_2 = u ''['' @ [51060, 48120, 51648] @ u '' '' @ [48652, 47532, 54532] @ u '' 2]''"

definition lbl_concept :: ustr where
  "lbl_concept = [52968, 49481] @ u '': ''"

definition lbl_scene :: ustr where
  "lbl_scene = [51109, 47732] @ u '': ''"

definition lbl_video_brief :: ustr where
  "lbl_video_brief = u ''['' @ [50689, 49345] @ u '' '' @ [48652, 47532, 54532] @ u '']''"

definition lbl_story :: ustr where
  "lbl_story = [49828, 53664, 47532] @ u '': ''"

definition lbl_slogan :: ustr where
  "lbl_slogan = u ''['' @ [49836, 47196, 44148] @ u ''] ''"

definition lbl_tagline :: ustr where
  "lbl_tagline = u ''['' @ [53468, 44536, 46972, 51064] @ u ''] ''"

definition lbl_pitch :: ustr where
  "lbl_pitch = u ''['' @ [50648, 47532, 48288, 51060, 53552] @ u '' '' @ [54588, 52824] @ u ''] ''"

definition lbl_social :: ustr where
  "lbl_social = u ''['' @ [49548, 49500, 48120, 46356, 50612] @ u '' '' @ [53080, 53584, 52768] @ u '']''"

definition lbl_kpi :: ustr where
  "lbl_kpi = u ''[KPI '' @ [54532, 47112, 51076, 50892, 53356] @ u '']''"

definition lbl_kpi_target :: ustr where
  "lbl_kpi_target = u ''   '' @ [47785, 54364] @ u '': ''"

definition lbl_success :: ustr where
  "lbl_success = u ''['' @ [49457, 44277] @ u '' '' @ [44592, 51456] @ u '']''"

definition lbl_stakeholders :: ustr where
  "lbl_stakeholders = u ''['' @ [51060, 54644, 44288, 44228, 51088] @ u '' '' @ [48516, 49437] @ u '']''"

definition lbl_objections :: ustr where
  "lbl_objections = u ''['' @ [48152, 45824] @ u '' '' @ [51032, 44204] @ u '' '' @ [45824, 51025] @ u '']''"

definition lbl_objection :: ustr where
  "lbl_objection = [8226] @ u '' '' @ [48152, 45824] @ u '': ''"

definition lbl_response :: ustr where
  "lbl_response = u ''  '' @ [45824, 51025] @ u '': ''"

definition lbl_image :: ustr where
  "lbl_image = [51060, 48120, 51648] @ u '' ''"

definition lbl_video :: ustr where
  "lbl_video = u ''['' @ [50689, 49345] @ u '' ''"

section \<open>The report renderer\<close>

text \<open>
  What \<open>create_pdf_report\<close> reads from outside its arguments: whether the CID font
  could be registered, and Python's \<open>str()\<close> for the values that are not strings.
\<close>

record env =
  font_ok :: bool
  str_of :: "json \<Rightarrow> ustr"

definition font_name :: "env \<Rightarrow> ustr" where
  "font_name e = (if font_ok e then font_cid else font_fallback)"

text \<open>
  Statements in sequence, a statement that cannot raise, \<open>x = m; body\<close> for an
  expression \<open>m\<close> that may raise, and the two guards the sections use.
\<close>

definition seq :: "('s \<Rightarrow> error + 's) list \<Rightarrow> 's \<Rightarrow> error + 's" where
  "seq fs s = for_each (\<lambda>f. f) fs s"

definition say :: "('s \<Rightarrow> 's) \<Rightarrow> 's \<Rightarrow> error + 's" where
  "say f s = Inr (f s)"

definition bind_in :: "error + 'a \<Rightarrow> ('a \<Rightarrow> 's \<Rightarrow> error + 's) \<Rightarrow> 's \<Rightarrow> error + 's" where
  "bind_in m body s = bind m (\<lambda>x. body x s)"

text \<open>\<open>if d.get(k): body\<close>\<close>

definition if_get :: "json \<Rightarrow> ustr \<Rightarrow> (st \<Rightarrow> error + st) \<Rightarrow> st \<Rightarrow> error + st" where
  "if_get d k body s = bind (py_get d k JNull) (\<lambda>v. if truthy v then body s else Inr s)"

text \<open>\<open>if k in d: x = d[k]; body\<close>\<close>

definition if_in :: "ustr \<Rightarrow> json \<Rightarrow> (json \<Rightarrow> st \<Rightarrow> error + st) \<Rightarrow> st \<Rightarrow> error + st" where
  "if_in k d body s =
     bind (py_in k d) (\<lambda>b. if b then bind (py_getitem d k) (\<lambda>x. body x s) else Inr s)"

text \<open>\<open>y = add_text(y, f"...", size, indent)\<close>, where building the f-string may raise.\<close>

definition add_text_of :: "ustr \<Rightarrow> error + ustr \<Rightarrow> nat \<Rightarrow> nat \<Rightarrow> st \<Rightarrow> error + st" where
  "add_text_of font txt sz indent s = bind txt (\<lambda>t. Inr (add_text font s t sz indent))"

text \<open>\<open>{d[k]}\<close> and \<open>{d.get(k, '')}\<close> inside an f-string, and a literal in front of one.\<close>

definition fmt_item :: "(json \<Rightarrow> ustr) \<Rightarrow> json \<Rightarrow> ustr \<Rightarrow> error + ustr" where
  "fmt_item fmt d k = bind (py_getitem d k) (\<lambda>v. Inr (py_str fmt v))"

definition fmt_get :: "(json \<Rightarrow> ustr) \<Rightarrow> json \<Rightarrow> ustr \<Rightarrow> error + ustr" where
  "fmt_get fmt d k = bind (py_get d k (JStr [])) (\<lambda>v. Inr (py_str fmt v))"

definition labelled :: "ustr \<Rightarrow> error + ustr \<Rightarrow> error + ustr" where
  "labelled label m = bind m (\<lambda>t. Inr (label @ t))"

text \<open>\<open>for idx, x in enumerate(d[k][:n], 1): body\<close> (and the same loop without the index).\<close>

definition for_sliced ::
  "json \<Rightarrow> ustr \<Rightarrow> nat \<Rightarrow> (nat \<times> json \<Rightarrow> st \<Rightarrow> error + st) \<Rightarrow> st \<Rightarrow> error + st" where
  "for_sliced d k n body s =
     bind (py_getitem d k) (\<lambda>v. bind (py_slice n v) (\<lambda>sl. bind (py_iter sl) (\<lambda>items.
       for_each body (enumerate 1 items) s)))"

text \<open>Lines 772 to 784: the cover block, on a fresh canvas.\<close>

definition cover :: "(json \<Rightarrow> ustr) \<Rightarrow> ustr \<Rightarrow> json \<Rightarrow> error + st" where
  "cover fmt font policy =
     (let s = emit (SetFont font 24) (height - 50, []);
          s = emit (DrawString 50 (fst s) cover_title) s;
          s = emit (SetFont font 14) (move 50 s)
      in bind (bind (py_get policy (u ''title'') (JStr [])) (py_slice 50)) (\<lambda>title.
         let s = emit (DrawString 50 (fst s) (lbl_title @ py_str fmt title)) s;
             s = emit (SetFont font 11) (move 25 s)
         in bind (bind (py_get policy (u ''category'') (JStr [])) (py_slice 60)) (\<lambda>category.
            let s = emit (DrawString 50 (fst s) (lbl_category @ py_str fmt category)) s;
                s = move 20 s
            in bind (fmt_get fmt policy (u ''target_audience'')) (\<lambda>target.
               let s = emit (DrawString 50 (fst s) (lbl_target @ target)) s;
                   s = move 20 s
               in bind (fmt_get fmt policy (u ''created_at'')) (\<lambda>created.
                  Inr (emit (DrawString 50 (fst s) (lbl_created @ created)) s))))))"

text \<open>Lines 795 to 812: the body of section 1.\<close>

definition content_1 :: "(json \<Rightarrow> ustr) \<Rightarrow> ustr \<Rightarrow> json \<Rightarrow> st \<Rightarrow> error + st" where
  "content_1 fmt font planning = seq [
       if_get planning (u ''objective'')
         (add_text_of font (labelled lbl_objective (fmt_item fmt planning (u ''objective''))) 10 60),
       if_get planning (u ''target_analysis'')
         (add_text_of font
            (labelled lbl_target_analysis (fmt_item fmt planning (u ''target_analysis''))) 10 60),
       if_get planning (u ''key_strategies'') (seq [
         say (\<lambda>s. add_text font s lbl_key_strategies 11 60),
         for_sliced planning (u ''key_strategies'') 8 (\<lambda>(idx, x).
           say (\<lambda>s. add_text font s (str_of_nat idx @ u ''. '' @ py_str fmt x) 10 70))]),
       if_get planning (u ''expected_outcomes'') (seq [
         say (\<lambda>s. add_text font s lbl_expected_outcomes 11 60),
         for_sliced planning (u ''expected_outcomes'') 5 (\<lambda>(idx, x).
           say (\<lambda>s. add_text font s (bullet @ py_str fmt x) 10 70))])]"

definition body_1 :: "(json \<Rightarrow> ustr) \<Rightarrow> ustr \<Rightarrow> json \<Rightarrow> st \<Rightarrow> error + st" where
  "body_1 fmt font analysis = if_in (u ''policy_planning'') analysis (content_1 fmt font)"

text \<open>Lines 820 to 834: the body of section 2. The key \<open>risk_management\<close> is never read.\<close>

definition content_2 :: "(json \<Rightarrow> ustr) \<Rightarrow> ustr \<Rightarrow> json \<Rightarrow> st \<Rightarrow> error + st" where
  "content_2 fmt font execution = seq [
       if_get execution (u ''action_items'') (seq [
         say (\<lambda>s. add_text font s lbl_action_items 11 60),
         for_sliced execution (u ''action_items'') 8 (\<lambda>(idx, x).
           add_text_of font
             (labelled (str_of_nat idx @ u ''. '') (fmt_get fmt x (u ''action''))) 10 70)]),
       if_get execution (u ''resources_needed'')
         (bind_in (py_getitem execution (u ''resources_needed'')) (\<lambda>res. seq [
            say (\<lambda>s. add_text font s lbl_resources 11 60),
            if_get res (u ''budget_range'')
              (add_text_of font (labelled lbl_budget (fmt_item fmt res (u ''budget_range''))) 10 70),
            if_get res (u ''personnel'')
              (add_text_of font
                 (labelled lbl_personnel (fmt_item fmt res (u ''personnel''))) 10 70)]))]"

definition body_2 :: "(json \<Rightarrow> ustr) \<Rightarrow> ustr \<Rightarrow> json \<Rightarrow> st \<Rightarrow> error + st" where
  "body_2 fmt font analysis = if_in (u ''execution_plan'') analysis (content_2 fmt font)"

text \<open>Lines 842 to 853: the body of section 3.\<close>

definition content_3 :: "(json \<Rightarrow> ustr) \<Rightarrow> ustr \<Rightarrow> json \<Rightarrow> st \<Rightarrow> error + st" where
  "content_3 fmt font comm = seq [
       if_get comm (u ''key_messages'') (seq [
         say (\<lambda>s. add_text font s lbl_key_messages 11 60),
         for_sliced comm (u ''key_messages'') 8 (\<lambda>(idx, x).
           say (\<lambda>s. add_text font s (str_of_nat idx @ u ''. '' @ py_str fmt x) 10 70))]),
       if_get comm (u ''channels'') (seq [
         say (\<lambda>s. add_text font s lbl_channels 11 60),
         for_sliced comm (u ''channels'') 5 (\<lambda>(idx, x).
           add_text_of font
             (bind (fmt_get fmt x (u ''channel'')) (\<lambda>a.
                labelled (bullet @ a @ u '': '') (fmt_get fmt x (u ''content_type'')))) 10 70)])]"

definition body_3 :: "(json \<Rightarrow> ustr) \<Rightarrow> ustr \<Rightarrow> json \<Rightarrow> st \<Rightarrow> error + st" where
  "body_3 fmt font analysis = if_in (u ''communication_strategy'') analysis (content_3 fmt font)"

text \<open>Lines 861 to 879: the body of section 4, whose guards are membership tests.\<close>

definition image_brief :: "(json \<Rightarrow> ustr) \<Rightarrow> ustr \<Rightarrow> ustr \<Rightarrow> json \<Rightarrow> st \<Rightarrow> error + st" where
  "image_brief fmt font label b = seq [
     say (\<lambda>s. add_text font s label 11 60),
     add_text_of font (labelled lbl_concept (fmt_get fmt b (u ''concept''))) 10 70,
     add_text_of font (labelled lbl_scene (fmt_get fmt b (u ''scene_description''))) 10 70]"

definition content_4 :: "(json \<Rightarrow> ustr) \<Rightarrow> ustr \<Rightarrow> json \<Rightarrow> st \<Rightarrow> error + st" where
  "content_4 fmt font briefs = seq [
       if_in (u ''image_brief_1'') briefs (image_brief fmt font lbl_image_brief_1),
       if_in (u ''image_brief_2'') briefs (image_brief fmt font lbl_image_brief_2),
       if_in (u ''video_brief'') briefs (\<lambda>vb. seq [
         say (\<lambda>s. add_text font s lbl_video_brief 11 60),
         add_text_of font (labelled lbl_story (fmt_get fmt vb (u ''narrative_arc''))) 10 70])]"

definition body_4 :: "(json \<Rightarrow> ustr) \<Rightarrow> ustr \<Rightarrow> json \<Rightarrow> st \<Rightarrow> error + st" where
  "body_4 fmt font analysis = if_in (u ''content_briefs'') analysis (content_4 fmt font)"

text \<open>Lines 887 to 902: the body of section 5.\<close>

definition content_5 :: "(json \<Rightarrow> ustr) \<Rightarrow> ustr \<Rightarrow> json \<Rightarrow> st \<Rightarrow> error + st" where
  "content_5 fmt font mk = seq [
       if_get mk (u ''slogan'')
         (add_text_of font (labelled lbl_slogan (fmt_item fmt mk (u ''slogan''))) 11 60),
       if_get mk (u ''tagline'')
         (add_text_of font (labelled lbl_tagline (fmt_item fmt mk (u ''tagline''))) 10 60),
       if_get mk (u ''elevator_pitch'')
         (add_text_of font (labelled lbl_pitch (fmt_item fmt mk (u ''elevator_pitch''))) 10 60),
       if_get mk (u ''social_media_posts'') (seq [
         say (\<lambda>s. add_text font s lbl_social 11 60),
         for_sliced mk (u ''social_media_posts'') 5 (\<lambda>(idx, x).
           add_text_of font
             (bind (fmt_get fmt x (u ''platform'')) (\<lambda>a.
                labelled (str_of_nat idx @ u ''. '' @ a @ u '': '') (fmt_get fmt x (u ''content''))))
             10 70)])]"

definition body_5 :: "(json \<Rightarrow> ustr) \<Rightarrow> ustr \<Rightarrow> json \<Rightarrow> st \<Rightarrow> error + st" where
  "body_5 fmt font analysis = if_in (u ''marketing_materials'') analysis (content_5 fmt font)"

text \<open>Lines 910 to 923: the body of section 6.\<close>

definition content_6 :: "(json \<Rightarrow> ustr) \<Rightarrow> ustr \<Rightarrow> json \<Rightarrow> st \<Rightarrow> error + st" where
  "content_6 fmt font metrics = seq [
       if_get metrics (u ''kpi_framework'') (seq [
         say (\<lambda>s. add_text font s lbl_kpi 11 60),
         for_sliced metrics (u ''kpi_framework'') 8 (\<lambda>(idx, x). seq [
           add_text_of font
             (labelled (str_of_nat idx @ u ''. '') (fmt_get fmt x (u ''metric''))) 10 70,
           if_get x (u ''target_range'')
             (add_text_of font
                (labelled lbl_kpi_target (fmt_item fmt x (u ''target_range''))) 9 75)])]),
       if_get metrics (u ''success_criteria'') (seq [
         say (\<lambda>s. add_text font s lbl_success 11 60),
         for_sliced metrics (u ''success_criteria'') 5 (\<lambda>(idx, x).
           say (\<lambda>s. add_text font s (bullet @ py_str fmt x) 10 70))])]"

definition body_6 :: "(json \<Rightarrow> ustr) \<Rightarrow> ustr \<Rightarrow> json \<Rightarrow> st \<Rightarrow> error + st" where
  "body_6 fmt font analysis = if_in (u ''performance_metrics'') analysis (content_6 fmt font)"

text \<open>Lines 931 to 943: the body of section 7.\<close>

definition content_7 :: "(json \<Rightarrow> ustr) \<Rightarrow> ustr \<Rightarrow> json \<Rightarrow> st \<Rightarrow> error + st" where
  "content_7 fmt font sh = seq [
       if_get sh (u ''stakeholders'') (seq [
         say (\<lambda>s. add_text font s lbl_stakeholders 11 60),
         for_sliced sh (u ''stakeholders'') 6 (\<lambda>(idx, x).
           add_text_of font
             (bind (fmt_get fmt x (u ''group'')) (\<lambda>a.
                labelled (str_of_nat idx @ u ''. '' @ a @ u '': '') (fmt_get fmt x (u ''interests''))))
             10 70)]),
       if_get sh (u ''objection_handling'') (seq [
         say (\<lambda>s. add_text font s lbl_objections 11 60),
         for_sliced sh (u ''objection_handling'') 4 (\<lambda>(idx, x). seq [
           add_text_of font (labelled lbl_objection (fmt_get fmt x (u ''objection''))) 10 70,
           add_text_of font (labelled lbl_response (fmt_get fmt x (u ''response''))) 9 75])])]"

definition body_7 :: "(json \<Rightarrow> ustr) \<Rightarrow> ustr \<Rightarrow> json \<Rightarrow> st \<Rightarrow> error + st" where
  "body_7 fmt font analysis = if_in (u ''stakeholder_management'') analysis (content_7 fmt font)"

text \<open>
  Lines 791 to 945: the seven numbered sections. Each heading is drawn before the
  membership test of its section; from the second on, a page break comes first when less
  than 150 points are left.
\<close>

definition room :: "st \<Rightarrow> st" where
  "room s = (if fst s < 150 then new_page s else s)"

definition sections :: "(json \<Rightarrow> ustr) \<Rightarrow> ustr \<Rightarrow> json \<Rightarrow> st \<Rightarrow> error + st" where
  "sections fmt font analysis = seq [
     say (\<lambda>s. add_heading font s heading_1 16), body_1 fmt font analysis, say (move 15),
     say room, say (\<lambda>s. add_heading font s heading_2 16), body_2 fmt font analysis, say (move 15),
     say room, say (\<lambda>s. add_heading font s heading_3 16), body_3 fmt font analysis, say (move 15),
     say room, say (\<lambda>s. add_heading font s heading_4 16), body_4 fmt font analysis, say (move 15),
     say room, say (\<lambda>s. add_heading font s heading_5 16), body_5 fmt font analysis, say (move 15),
     say room, say (\<lambda>s. add_heading font s heading_6 16), body_6 fmt font analysis, say (move 15),
     say room, say (\<lambda>s. add_heading font s heading_7 16), body_7 fmt font analysis, say (move 15)]"

text \<open>
  Lines 948 to 964: the images. \<open>app.py\<close> imports \<open>canvas\<close>, \<open>pdfmetrics\<close>,
  \<open>UnicodeCIDFont\<close>, \<open>A4\<close> and \<open>mm\<close> from ReportLab, and nothing binds the name
  \<open>ImageReader\<close> that line 957 calls. The binding of that global name is the parameter
  \<open>g\<close>: \<open>None\<close> when the name is unbound, so that the call raises \<open>NameError\<close>, and
  \<open>Some ok\<close> when it is bound to a reader for which \<open>ImageReader\<close> and
  \<open>drawImage\<close> succeed on exactly the blobs \<open>ok\<close> accepts. The bare \<open>except: pass\<close>
  swallows either failure.
\<close>

definition module_ImageReader :: "(bytes \<Rightarrow> bool) option" where
  "module_ImageReader = None"

definition read_image :: "(bytes \<Rightarrow> bool) option \<Rightarrow> bytes \<Rightarrow> error + bytes" where
  "read_image g b =
     (case g of
        None \<Rightarrow> Inl NameError
      | Some ok \<Rightarrow> if ok b then Inr b else Inl TypeError)"

definition draw_image :: "(bytes \<Rightarrow> bool) option \<Rightarrow> ustr \<Rightarrow> nat \<times> bytes \<Rightarrow> st \<Rightarrow> st" where
  "draw_image g font ib s =
     (let s1 = (if fst s < 250 then new_page s else s)
      in case read_image g (snd ib) of
           Inl e \<Rightarrow> s1
         | Inr img \<Rightarrow>
             (let s2 = move 220 (emit (DrawImage img 50 (fst s1 - 200) 450 200) s1);
                  s3 = emit (SetFont font 10) s2;
                  s4 = emit (DrawString 50 (fst s3) (lbl_image @ str_of_nat (fst ib))) s3
              in move 30 s4))"

definition images_section ::
  "(bytes \<Rightarrow> bool) option \<Rightarrow> ustr \<Rightarrow> bytes list option \<Rightarrow> st \<Rightarrow> st" where
  "images_section g font images s =
     (case images of
        None \<Rightarrow> s
      | Some imgs \<Rightarrow>
          if imgs = [] then s
          else fold (draw_image g font) (enumerate 1 (take 4 imgs))
                 (add_heading font (room s) heading_8 16))"

text \<open>Lines 967 to 976: the video prompts.\<close>

definition draw_prompt :: "ustr \<Rightarrow> nat \<times> ustr \<Rightarrow> st \<Rightarrow> st" where
  "draw_prompt font ip s =
     (let s1 = room s;
          s2 = add_text font s1 (lbl_video @ str_of_nat (fst ip) @ u '']'') 11 60;
          s3 = add_text font s2 (take 600 (snd ip)) 9 70
      in move 15 s3)"

definition prompts_section :: "ustr \<Rightarrow> ustr list option \<Rightarrow> st \<Rightarrow> st" where
  "prompts_section font video_prompts s =
     (case video_prompts of
        None \<Rightarrow> s
      | Some ps \<Rightarrow>
          if ps = [] then s
          else fold (draw_prompt font) (enumerate 1 (take 9 ps))
                 (add_heading font (new_page s) heading_9 16))"

text \<open>
  Lines 731 to 980. The result is the canvas that \<open>c.save()\<close> writes out, or the
  exception that left the function; \<open>create_pdf_report\<close> is the function as the module
  has it, with the binding of \<open>ImageReader\<close> the module has.
\<close>

definition create_pdf_report_g ::
  "(bytes \<Rightarrow> bool) option \<Rightarrow> env \<Rightarrow> json \<Rightarrow> json \<Rightarrow> bytes list option \<Rightarrow> ustr list option
     \<Rightarrow> error + canvas_op list" where
  "create_pdf_report_g g e policy analysis images video_prompts =
     bind (cover (str_of e) (font_name e) policy) (\<lambda>s.
       if \<not> truthy analysis then Inr (snd (emit Save s))
       else bind (sections (str_of e) (font_name e) analysis (new_page s)) (\<lambda>s.
         Inr (snd (emit Save
           (prompts_section (font_name e) video_prompts
             (images_section g (font_name e) images s))))))"

definition create_pdf_report ::
  "env \<Rightarrow> json \<Rightarrow> json \<Rightarrow> bytes list option \<Rightarrow> ustr list option \<Rightarrow> error + canvas_op list" where
  "create_pdf_report = create_pdf_report_g module_ImageReader"

section \<open>The analysis call\<close>




















section \<open>Reading a finished canvas\<close>

text \<open>
  The outline of a document: what is drawn at the left margin (\<open>x = 50\<close>, where the
  cover lines, the numbered headings and the image captions go) and the images, in
  drawing order. Body text is drawn at 60, 70 or 75 and is not part of the outline.
\<close>

datatype mark = Margin ustr | Picture bytes

fun mark_of :: "canvas_op \<Rightarrow> mark list" where
  "mark_of (DrawString x y t) = (if x = 50 then [Margin t] else [])"
| "mark_of (DrawImage b x y w h) = [Picture b]"
| "mark_of c = []"

definition marks :: "canvas_op list \<Rightarrow> mark list" where
  "marks ops = concat (map mark_of ops)"

text \<open>The images of an outline, in drawing order.\<close>

fun picture_of :: "mark \<Rightarrow> bytes list" where
  "picture_of (Picture b) = [b]"
| "picture_of (Margin t) = []"

definition pictures :: "mark list \<Rightarrow> bytes list" where
  "pictures ms = concat (map picture_of ms)"


text \<open>
  A statement that, when it returns, has only appended to the canvas, and what it
  appended has exactly the marks \<open>ms\<close>.
\<close>

definition adds :: "(st \<Rightarrow> error + st) \<Rightarrow> mark list \<Rightarrow> bool" where
  "adds f ms = (\<forall>s s'. f s = Inr s' \<longrightarrow> (\<exists>new. snd s' = snd s @ new \<and> marks new = ms))"

text \<open>
  A subject record as the data model has it: a row whose title, category, target
  audience and creation time are text where they are present.
\<close>

definition text_or_absent :: "(ustr \<times> json) list \<Rightarrow> ustr \<Rightarrow> bool" where
  "text_or_absent kvs k = (case map_of kvs k of None \<Rightarrow> True | Some (JStr t) \<Rightarrow> True | Some v \<Rightarrow> False)"

definition text_field :: "(ustr \<times> json) list \<Rightarrow> ustr \<Rightarrow> ustr" where
  "text_field kvs k = (case map_of kvs k of Some (JStr t) \<Rightarrow> t | _ \<Rightarrow> [])"

fun subject_record :: "json \<Rightarrow> bool" where
  "subject_record (JObj kvs) =
     (text_or_absent kvs (u ''title'') \<and> text_or_absent kvs (u ''category'') \<and>
      text_or_absent kvs (u ''target_audience'') \<and> text_or_absent kvs (u ''created_at''))"
| "subject_record v = False"

fun fields :: "json \<Rightarrow> (ustr \<times> json) list" where
  "fields (JObj kvs) = kvs"
| "fields v = []"

text \<open>The cover block of a subject record: five lines on the first page.\<close>

definition cover_lines :: "json \<Rightarrow> ustr list" where
  "cover_lines policy =
     [cover_title,
      lbl_title @ take 50 (text_field (fields policy) (u ''title'')),
      lbl_category @ take 60 (text_field (fields policy) (u ''category'')),
      lbl_target @ text_field (fields policy) (u ''target_audience''),
      lbl_created @ text_field (fields policy) (u ''created_at'')]"

definition cover_page :: "ustr \<Rightarrow> json \<Rightarrow> canvas_op list" where
  "cover_page font policy =
     [SetFont font 24, DrawString 50 (height - 50) (cover_lines policy ! 0),
      SetFont font 14, DrawString 50 (height - 100) (cover_lines policy ! 1),
      SetFont font 11, DrawString 50 (height - 125) (cover_lines policy ! 2),
      DrawString 50 (height - 145) (cover_lines policy ! 3),
      DrawString 50 (height - 165) (cover_lines policy ! 4)]"

text \<open>The seven numbered headings of the analysis, and the page they make when no section has a body.\<close>

definition section_headings :: "ustr list" where
  "section_headings =
     [heading_1, heading_2, heading_3, heading_4, heading_5, heading_6, heading_7]"

definition section_keys :: "ustr list" where
  "section_keys =
     [u ''policy_planning'', u ''execution_plan'', u ''communication_strategy'',
      u ''content_briefs'', u ''marketing_materials'', u ''performance_metrics'',
      u ''stakeholder_management'']"

definition headings_page :: "ustr \<Rightarrow> canvas_op list" where
  "headings_page font =
     ShowPage #
     concat (map (\<lambda>(k, h). [SetFont font 16, DrawString 50 (height - 50 - 46 * of_nat k) h])
               (enumerate 0 section_headings))"

text \<open>The blobs that the call of \<open>ImageReader\<close> and the drawing succeed on, under a binding.\<close>

definition readable :: "(bytes \<Rightarrow> bool) option \<Rightarrow> bytes \<Rightarrow> bool" where
  "readable g b = (case g of None \<Rightarrow> False | Some ok \<Rightarrow> ok b)"

definition image_marks :: "(bytes \<Rightarrow> bool) option \<Rightarrow> bytes list option \<Rightarrow> mark list" where
  "image_marks g images =
     (case images of
        None \<Rightarrow> []
      | Some imgs \<Rightarrow>
          if imgs = [] then []
          else Margin heading_8 #
               concat (map (\<lambda>ib. [Picture (snd ib), Margin (lbl_image @ str_of_nat (fst ib))])
                         (filter (\<lambda>ib. readable g (snd ib)) (enumerate 1 (take 4 imgs)))))"

definition prompt_marks :: "ustr list option \<Rightarrow> mark list" where
  "prompt_marks video_prompts =
     (case video_prompts of None \<Rightarrow> [] | Some ps \<Rightarrow> if ps = [] then [] else [Margin heading_9])"

definition outline ::
  "(bytes \<Rightarrow> bool) option \<Rightarrow> json \<Rightarrow> bytes list option \<Rightarrow> ustr list option \<Rightarrow> mark list" where
  "outline g policy images video_prompts =
     map Margin (cover_lines policy) @ map Margin section_headings @
     image_marks g images @ prompt_marks video_prompts"

text \<open>
  The sections after the first heading: six headings, in order, between statements that
  leave no mark.
\<close>

definition later_sections :: "(json \<Rightarrow> ustr) \<Rightarrow> ustr \<Rightarrow> json \<Rightarrow> (st \<Rightarrow> error + st) list" where
  "later_sections fmt font analysis =
    [body_1 fmt font analysis, say (move 15),
     say room, say (\<lambda>s. add_heading font s heading_2 16), body_2 fmt font analysis, say (move 15),
     say room, say (\<lambda>s. add_heading font s heading_3 16), body_3 fmt font analysis, say (move 15),
     say room, say (\<lambda>s. add_heading font s heading_4 16), body_4 fmt font analysis, say (move 15),
     say room, say (\<lambda>s. add_heading font s heading_5 16), body_5 fmt font analysis, say (move 15),
     say room, say (\<lambda>s. add_heading font s heading_6 16), body_6 fmt font analysis, say (move 15),
     say room, say (\<lambda>s. add_heading font s heading_7 16), body_7 fmt font analysis, say (move 15)]"

text \<open>The seven guarded bodies and the seven contents they guard, in the order of the keys.\<close>

definition section_bodies :: "(json \<Rightarrow> ustr) \<Rightarrow> ustr \<Rightarrow> json \<Rightarrow> (st \<Rightarrow> error + st) list" where
  "section_bodies fmt font analysis =
     [body_1 fmt font analysis, body_2 fmt font analysis, body_3 fmt font analysis,
      body_4 fmt font analysis, body_5 fmt font analysis, body_6 fmt font analysis,
      body_7 fmt font analysis]"

definition section_contents :: "(json \<Rightarrow> ustr) \<Rightarrow> ustr \<Rightarrow> (json \<Rightarrow> st \<Rightarrow> error + st) list" where
  "section_contents fmt font =
     [content_1 fmt font, content_2 fmt font, content_3 fmt font, content_4 fmt font,
      content_5 fmt font, content_6 fmt font, content_7 fmt font]"

text \<open>A statement that leaves the outline as it is.\<close>

definition quiet :: "(st \<Rightarrow> error + st) \<Rightarrow> bool" where
  "quiet f = adds f []"

text \<open>A mapping that has none of the seven section keys.\<close>

definition lacks_sections :: "(ustr \<times> json) list \<Rightarrow> bool" where
  "lacks_sections kvs = list_all (\<lambda>k. map_of kvs k = None) section_keys"

text \<open>
  \<open>d[k] = v\<close> and \<open>a[sec][k] = v\<close> on a copy (the first entry of an association list
  is the one \<open>map_of\<close> reads), to speak about one list field of an analysis.
\<close>

definition put :: "ustr \<Rightarrow> json \<Rightarrow> json \<Rightarrow> json" where
  "put k v d = JObj ((k, v) # fields d)"

definition put_in :: "ustr \<Rightarrow> ustr \<Rightarrow> json \<Rightarrow> json \<Rightarrow> json" where
  "put_in sec k v a =
     put sec (put k v (case map_of (fields a) sec of None \<Rightarrow> JObj [] | Some d \<Rightarrow> d)) a"


section \<open>Worked inputs\<close>

text \<open>
  The scenario of the specification: the policy "Clean Air Policy" and an analysis with
  one objective. The inputs below format strings only, so the \<open>str()\<close> of the sample
  environment is never applied.
\<close>

definition sample_env :: env where
  "sample_env = \<lparr>font_ok = True, str_of = (\<lambda>v. [])\<rparr>"

definition clean_air :: json where
  "clean_air = JObj
     [(u ''title'', JStr (u ''Clean Air Policy'')),
      (u ''category'', JStr (u ''Environment'')),
      (u ''target_audience'', JStr (u ''Citizens'')),
      (u ''created_at'', JStr (u ''2024-01-01T00:00:00''))]"

definition one_objective :: json where
  "one_objective = JObj
     [(u ''policy_planning'', JObj [(u ''objective'', JStr (u ''Reduce PM2.5 by 20%''))])]"

definition objective_line :: ustr where
  "objective_line = lbl_objective @ u ''Reduce PM2.5 by 20%''"

text \<open>An analysis whose first section is \<open>null\<close>.\<close>

definition null_section :: json where
  "null_section = JObj [(u ''policy_planning'', JNull)]"

text \<open>An analysis with a key that is none of the seven sections.\<close>

definition only_a_note :: json where
  "only_a_note = JObj [(u ''note'', JStr (u ''pending''))]"







text \<open>Five image blobs, told apart by their first byte, and a reader that rejects the second.\<close>

definition blob :: "nat \<Rightarrow> bytes" where
  "blob n = [of_nat n, 80, 78, 71]"

definition five_blobs :: "bytes list" where
  "five_blobs = [blob 1, blob 2, blob 3, blob 4, blob 5]"


section \<open>Facts about the layout primitives\<close>

lemma u_eq_iff [simp]: "u s = u t \<longleftrightarrow> s = t"
  by (simp add: u_def inj_map_eq_map inj_on_def)

lemma drawn_texts_append [simp]: "drawn_texts (xs @ ys) = drawn_texts xs @ drawn_texts ys"
  by (simp add: drawn_texts_def)

lemma drawn_texts_Nil [simp]: "drawn_texts [] = []"
  by (simp add: drawn_texts_def)

lemma drawn_texts_Cons [simp]: "drawn_texts (c # cs) = drawn_text c @ drawn_texts cs"
  by (simp add: drawn_texts_def)

lemma fst_emit [simp]: "fst (emit c s) = fst s" by (simp add: emit_def)
lemma snd_emit [simp]: "snd (emit c s) = snd s @ [c]" by (simp add: emit_def)
lemma fst_move [simp]: "fst (move d s) = fst s - d" by (simp add: move_def)
lemma snd_move [simp]: "snd (move d s) = snd s" by (simp add: move_def)
lemma fst_new_page [simp]: "fst (new_page s) = height - 50" by (simp add: new_page_def)
lemma snd_new_page [simp]: "snd (new_page s) = snd s @ [ShowPage]" by (simp add: new_page_def)

lemma draw_lines_texts:
  "drawn_texts (snd (draw_lines font sz indent ls s)) = drawn_texts (snd s) @ ls"
  by (induction ls arbitrary: s) (simp_all add: Let_def)

lemma length_py_range [simp]: "length (py_range stop step) = (stop + step - 1) div step"
  by (simp add: py_range_def)

lemma length_text_lines:
  "length (text_lines txt m) = (min (length txt) 400 + m - 1) div m"
  by (simp add: text_lines_def)

lemma line_count_le_5:
  "(min (length t) 400 + max_len indent - 1) div max_len indent \<le> 5"
  by (simp add: max_len_def) arith

lemma concat_chunks:
  "0 < m \<Longrightarrow> concat (map (\<lambda>k. take m (drop (k * m) txt)) [0..<n]) = take (n * m) txt"
proof (induction n)
  case 0
  then show ?case by simp
next
  case (Suc n)
  have "take (n * m + m) txt = take (n * m) txt @ take m (drop (n * m) txt)"
    by (rule take_add)
  with Suc show ?case by (simp add: add.commute)
qed

lemma text_lines_chunks:
  "text_lines txt m = map (\<lambda>k. take m (drop (k * m) txt)) [0..<(min (length txt) 400 + m - 1) div m]"
  by (simp add: text_lines_def py_range_def)

lemma add_text_texts:
  "drawn_texts (snd (add_text font s t sz indent)) =
     drawn_texts (snd s) @ text_lines t (max_len indent)"
proof -
  have "length (text_lines t (max_len indent)) \<le> 10"
    using line_count_le_5 [of t indent] by (simp add: length_text_lines)
  then show ?thesis
    by (simp add: add_text_def Let_def draw_lines_texts)
qed

lemma concat_text_lines:
  "concat (text_lines txt (max_len indent)) =
     (if length txt \<le> 400 then txt else take (5 * max_len indent) txt)"
proof (cases "length txt \<le> 400")
  case True
  let ?m = "max_len indent"
  have m: "0 < ?m" by (simp add: max_len_def)
  define x where "x = length txt + ?m - 1"
  have "(x div ?m) * ?m + x mod ?m = x"
    by simp
  moreover have "x mod ?m < ?m"
    using m by simp
  ultimately have "length txt \<le> (x div ?m) * ?m"
    using m unfolding x_def by linarith
  then have "take ((length txt + ?m - 1) div ?m * ?m) txt = txt"
    by (simp add: x_def)
  then show ?thesis using True m
    by (simp add: text_lines_chunks concat_chunks min_def)
next
  case False
  let ?m = "max_len indent"
  have m: "0 < ?m" by (simp add: max_len_def)
  have n: "(min (length txt) 400 + ?m - 1) div ?m = 5"
    using False by (simp add: max_len_def min_def)
  have "concat (text_lines txt ?m) = take (5 * ?m) txt"
    unfolding text_lines_chunks n by (rule concat_chunks [OF m])
  with False show ?thesis by simp
qed


section \<open>The outline of a report\<close>

lemma marks_Nil [simp]: "marks [] = []" by (simp add: marks_def)
lemma marks_append [simp]: "marks (xs @ ys) = marks xs @ marks ys" by (simp add: marks_def)
lemma marks_Cons [simp]: "marks (c # cs) = mark_of c @ marks cs" by (simp add: marks_def)

lemma bind_Inr_iff [simp]: "bind m f = Inr y \<longleftrightarrow> (\<exists>x. m = Inr x \<and> f x = Inr y)"
  by (cases m) (simp_all add: bind_def)

lemma bind_Inr [simp]: "bind (Inr x) f = f x" by (simp add: bind_def)
lemma bind_Inl [simp]: "bind (Inl e) f = Inl e" by (simp add: bind_def)

lemma seq_Nil [simp]: "seq [] s = Inr s"
  by (simp add: seq_def)

lemma seq_Cons [simp]: "seq (f # fs) s = bind (f s) (seq fs)"
proof -
  have "seq fs = for_each (\<lambda>f. f) fs"
    by (rule ext) (simp add: seq_def)
  then show ?thesis by (simp add: seq_def)
qed

text \<open>The layout primitives only append, and body text leaves no mark.\<close>

lemma draw_lines_appends:
  "indent \<noteq> 50 \<Longrightarrow>
     \<exists>new. snd (draw_lines font sz indent ls s) = snd s @ new \<and> marks new = []"
proof (induction ls arbitrary: s)
  case Nil
  then show ?case by simp
next
  case (Cons l ls)
  let ?s1 = "if fst s < 60 then emit (SetFont font sz) (new_page s) else s"
  let ?s2 = "move (of_nat (sz + 4)) (emit (DrawString indent (fst ?s1) l) ?s1)"
  obtain new where new: "snd (draw_lines font sz indent ls ?s2) = snd ?s2 @ new" "marks new = []"
    using Cons.IH [OF Cons.prems] by blast
  obtain pre where pre: "snd ?s2 = snd s @ pre" "marks pre = []"
    using Cons.prems by (cases "fst s < 60") simp_all
  have "snd (draw_lines font sz indent (l # ls) s) = snd s @ (pre @ new)"
    using new(1) pre(1) by (simp add: Let_def)
  moreover have "marks (pre @ new) = []"
    using new(2) pre(2) by simp
  ultimately show ?case by blast
qed

lemma add_text_appends:
  assumes "indent \<noteq> 50"
  shows "\<exists>new. snd (add_text font s t sz indent) = snd s @ new \<and> marks new = []"
proof -
  let ?s2 = "emit (SetFont font sz) (if fst s < 80 then new_page s else s)"
  obtain new where new:
    "snd (draw_lines font sz indent (take 10 (text_lines t (max_len indent))) ?s2) = snd ?s2 @ new"
    "marks new = []"
    using draw_lines_appends [OF assms] by blast
  obtain pre where pre: "snd ?s2 = snd s @ pre" "marks pre = []"
    by (cases "fst s < 80") simp_all
  have "snd (add_text font s t sz indent) = snd s @ (pre @ new)"
    using new(1) pre(1) by (simp add: add_text_def Let_def)
  moreover have "marks (pre @ new) = []"
    using new(2) pre(2) by simp
  ultimately show ?thesis by blast
qed

lemma add_text_marks [simp]:
  "indent \<noteq> 50 \<Longrightarrow> marks (snd (add_text font s t sz indent)) = marks (snd s)"
  using add_text_appends [of indent font s t sz] by auto

lemma snd_add_heading:
  "snd (add_heading font s h sz) =
     snd s @ (if fst s < 100 then [ShowPage] else []) @
       [SetFont font sz, DrawString 50 (if fst s < 100 then height - 50 else fst s) (take 90 h)]"
  by (simp add: add_heading_def Let_def)

lemma fst_add_heading:
  "fst (add_heading font s h sz) = (if fst s < 100 then height - 50 else fst s) - of_nat (sz + 15)"
  by (simp add: add_heading_def Let_def)

lemma add_heading_marks [simp]:
  "marks (snd (add_heading font s h sz)) = marks (snd s) @ [Margin (take 90 h)]"
  by (simp add: snd_add_heading)

lemma snd_room: "snd (room s) = snd s @ (if fst s < 150 then [ShowPage] else [])"
  by (simp add: room_def)

lemma room_marks [simp]: "marks (snd (room s)) = marks (snd s)"
  by (simp add: room_def)

text \<open>Statements that add given marks, and their composition.\<close>

lemma addsD:
  "adds f ms \<Longrightarrow> f s = Inr s' \<Longrightarrow> \<exists>new. snd s' = snd s @ new \<and> marks new = ms"
  unfolding adds_def by (simp del: split_paired_All split_paired_Ex)

lemma addsI:
  "(\<And>s s'. f s = Inr s' \<Longrightarrow> \<exists>new. snd s' = snd s @ new \<and> marks new = ms) \<Longrightarrow> adds f ms"
  unfolding adds_def by (simp del: split_paired_All split_paired_Ex)

lemma adds_marks: "adds f ms \<Longrightarrow> f s = Inr s' \<Longrightarrow> marks (snd s') = marks (snd s) @ ms"
  using addsD [of f ms s s'] by auto

lemma quietD:
  "quiet f \<Longrightarrow> f s = Inr s' \<Longrightarrow> \<exists>new. snd s' = snd s @ new \<and> marks new = []"
  unfolding quiet_def by (rule addsD)

lemma quietI:
  "(\<And>s s'. f s = Inr s' \<Longrightarrow> \<exists>new. snd s' = snd s @ new \<and> marks new = []) \<Longrightarrow> quiet f"
  unfolding quiet_def by (rule addsI)

lemma adds_quiet: "quiet f \<Longrightarrow> adds f []"
  by (simp add: quiet_def)

lemma adds_seq_Nil: "adds (seq []) []"
  by (rule addsI) simp

lemma adds_seq_Cons:
  assumes "adds f ms" and "adds (seq fs) ns"
  shows "adds (seq (f # fs)) (ms @ ns)"
proof (rule addsI)
  fix s s'
  assume "seq (f # fs) s = Inr s'"
  then obtain s1 where 1: "f s = Inr s1" and 2: "seq fs s1 = Inr s'"
    by (auto simp del: split_paired_Ex)
  obtain n1 where n1: "snd s1 = snd s @ n1" "marks n1 = ms"
    using addsD [OF assms(1) 1] by blast
  obtain n2 where n2: "snd s' = snd s1 @ n2" "marks n2 = ns"
    using addsD [OF assms(2) 2] by blast
  have "snd s' = snd s @ (n1 @ n2)" "marks (n1 @ n2) = ms @ ns"
    using n1 n2 by simp_all
  then show "\<exists>new. snd s' = snd s @ new \<and> marks new = ms @ ns" by blast
qed

lemma quiet_seq_Nil: "quiet (seq [])"
  unfolding quiet_def by (rule adds_seq_Nil)

lemma quiet_seq_Cons: "quiet f \<Longrightarrow> quiet (seq fs) \<Longrightarrow> quiet (seq (f # fs))"
  unfolding quiet_def using adds_seq_Cons [of f "[]" fs "[]"] by simp

lemma quiet_say_add_text: "indent \<noteq> 50 \<Longrightarrow> quiet (say (\<lambda>s. add_text font s t sz indent))"
proof (rule quietI)
  fix s s'
  assume i: "indent \<noteq> 50" and "say (\<lambda>s. add_text font s t sz indent) s = Inr s'"
  then have "s' = add_text font s t sz indent" by (simp add: say_def)
  then show "\<exists>new. snd s' = snd s @ new \<and> marks new = []"
    using add_text_appends [OF i] by simp
qed

lemma quiet_add_text_of: "indent \<noteq> 50 \<Longrightarrow> quiet (add_text_of font m sz indent)"
proof (rule quietI)
  fix s s'
  assume i: "indent \<noteq> 50" and "add_text_of font m sz indent s = Inr s'"
  then obtain t where "s' = add_text font s t sz indent"
    by (auto simp: add_text_of_def)
  then show "\<exists>new. snd s' = snd s @ new \<and> marks new = []"
    using add_text_appends [OF i] by simp
qed

lemma quiet_for_each:
  assumes q: "\<And>x. quiet (body x)"
  shows "quiet (for_each body xs)"
proof (rule quietI)
  fix s s'
  show "for_each body xs s = Inr s' \<Longrightarrow> \<exists>new. snd s' = snd s @ new \<and> marks new = []"
  proof (induction xs arbitrary: s)
    case Nil
    then show ?case by simp
  next
    case (Cons x xs)
    then obtain s1 where 1: "body x s = Inr s1" and 2: "for_each body xs s1 = Inr s'"
      by (auto simp del: split_paired_Ex)
    obtain n1 where n1: "snd s1 = snd s @ n1" "marks n1 = []"
      using quietD [OF q 1] by blast
    obtain n2 where n2: "snd s' = snd s1 @ n2" "marks n2 = []"
      using Cons.IH [OF 2] by blast
    have "snd s' = snd s @ (n1 @ n2)" "marks (n1 @ n2) = []"
      using n1 n2 by simp_all
    then show ?case by blast
  qed
qed

lemma quiet_if_get:
  assumes "quiet body"
  shows "quiet (if_get d k body)"
proof (rule quietI)
  fix s s'
  assume "if_get d k body s = Inr s'"
  then consider "s' = s" | "body s = Inr s'"
    by (auto simp: if_get_def split: if_splits)
  then show "\<exists>new. snd s' = snd s @ new \<and> marks new = []"
  proof cases
    case 1
    then show ?thesis by simp
  next
    case 2
    then show ?thesis by (rule quietD [OF assms])
  qed
qed

lemma quiet_if_in:
  assumes "\<And>x. quiet (body x)"
  shows "quiet (if_in k d body)"
proof (rule quietI)
  fix s s'
  assume "if_in k d body s = Inr s'"
  then consider "s' = s" | x where "body x s = Inr s'"
    by (auto simp: if_in_def split: if_splits)
  then show "\<exists>new. snd s' = snd s @ new \<and> marks new = []"
  proof cases
    case 1
    then show ?thesis by simp
  next
    case 2
    then show ?thesis by (rule quietD [OF assms])
  qed
qed

lemma quiet_bind_in:
  assumes "\<And>x. quiet (body x)"
  shows "quiet (bind_in m body)"
proof (rule quietI)
  fix s s'
  assume "bind_in m body s = Inr s'"
  then obtain x where "body x s = Inr s'"
    by (auto simp: bind_in_def)
  then show "\<exists>new. snd s' = snd s @ new \<and> marks new = []"
    by (rule quietD [OF assms])
qed

lemma quiet_for_sliced:
  assumes "\<And>x. quiet (body x)"
  shows "quiet (for_sliced d k n body)"
proof (rule quietI)
  fix s s'
  assume "for_sliced d k n body s = Inr s'"
  then obtain xs where "for_each body xs s = Inr s'"
    by (auto simp: for_sliced_def)
  then show "\<exists>new. snd s' = snd s @ new \<and> marks new = []"
    by (rule quietD [OF quiet_for_each [of body, OF assms]])
qed

lemma quiet_case_prod: "(\<And>a b. quiet (f a b)) \<Longrightarrow> quiet (case_prod f x)"
  by (cases x) simp

lemmas quiet_intros =
  quiet_seq_Nil quiet_seq_Cons quiet_if_get quiet_if_in quiet_bind_in quiet_for_sliced
  quiet_case_prod quiet_say_add_text quiet_add_text_of

lemma quiet_content_1: "quiet (content_1 fmt font d)"
  unfolding content_1_def by (intro quiet_intros) simp_all

lemma quiet_content_2: "quiet (content_2 fmt font d)"
  unfolding content_2_def by (intro quiet_intros) simp_all

lemma quiet_content_3: "quiet (content_3 fmt font d)"
  unfolding content_3_def by (intro quiet_intros) simp_all

lemma quiet_content_4: "quiet (content_4 fmt font d)"
  unfolding content_4_def image_brief_def by (intro quiet_intros) simp_all

lemma quiet_content_5: "quiet (content_5 fmt font d)"
  unfolding content_5_def by (intro quiet_intros) simp_all

lemma quiet_content_6: "quiet (content_6 fmt font d)"
  unfolding content_6_def by (intro quiet_intros) simp_all

lemma quiet_content_7: "quiet (content_7 fmt font d)"
  unfolding content_7_def by (intro quiet_intros) simp_all

lemma quiet_body_1: "quiet (body_1 fmt font a)"
  unfolding body_1_def by (intro quiet_if_in quiet_content_1)

lemma quiet_body_2: "quiet (body_2 fmt font a)"
  unfolding body_2_def by (intro quiet_if_in quiet_content_2)

lemma quiet_body_3: "quiet (body_3 fmt font a)"
  unfolding body_3_def by (intro quiet_if_in quiet_content_3)

lemma quiet_body_4: "quiet (body_4 fmt font a)"
  unfolding body_4_def by (intro quiet_if_in quiet_content_4)

lemma quiet_body_5: "quiet (body_5 fmt font a)"
  unfolding body_5_def by (intro quiet_if_in quiet_content_5)

lemma quiet_body_6: "quiet (body_6 fmt font a)"
  unfolding body_6_def by (intro quiet_if_in quiet_content_6)

lemma quiet_body_7: "quiet (body_7 fmt font a)"
  unfolding body_7_def by (intro quiet_if_in quiet_content_7)

lemma adds_say_heading: "adds (say (\<lambda>s. add_heading font s h sz)) [Margin (take 90 h)]"
proof (rule addsI)
  fix s s'
  assume "say (\<lambda>s. add_heading font s h sz) s = Inr s'"
  then have "s' = add_heading font s h sz" by (simp add: say_def)
  then show "\<exists>new. snd s' = snd s @ new \<and> marks new = [Margin (take 90 h)]"
    by (simp add: snd_add_heading)
qed

lemma adds_say_room: "adds (say room) []"
proof (rule addsI)
  fix s s'
  assume "say room s = Inr s'"
  then have "s' = room s" by (simp add: say_def)
  then show "\<exists>new. snd s' = snd s @ new \<and> marks new = []"
    by (simp add: snd_room)
qed

lemma adds_say_move: "adds (say (move d)) []"
proof (rule addsI)
  fix s s'
  assume "say (move d) s = Inr s'"
  then have "s' = move d s" by (simp add: say_def)
  then show "\<exists>new. snd s' = snd s @ new \<and> marks new = []"
    by simp
qed

lemma take_90_headings:
  "map (take 90) section_headings = section_headings"
  by (simp add: section_headings_def heading_1_def heading_2_def heading_3_def heading_4_def
      heading_5_def heading_6_def heading_7_def u_def)

lemma sections_split:
  "sections fmt font a s =
     seq (later_sections fmt font a) (add_heading font s heading_1 16)"
  by (simp add: sections_def later_sections_def say_def)

lemma adds_later_sections:
  "adds (seq (later_sections fmt font a)) (map Margin (tl section_headings))"
proof -
  have "adds (seq (later_sections fmt font a))
     ([] @ [] @
      [] @ [Margin (take 90 heading_2)] @ [] @ [] @
      [] @ [Margin (take 90 heading_3)] @ [] @ [] @
      [] @ [Margin (take 90 heading_4)] @ [] @ [] @
      [] @ [Margin (take 90 heading_5)] @ [] @ [] @
      [] @ [Margin (take 90 heading_6)] @ [] @ [] @
      [] @ [Margin (take 90 heading_7)] @ [] @ [] @ [])"
    unfolding later_sections_def
    by (intro adds_seq_Cons adds_seq_Nil adds_say_heading adds_say_room adds_say_move
        adds_quiet quiet_body_1 quiet_body_2 quiet_body_3 quiet_body_4 quiet_body_5
        quiet_body_6 quiet_body_7)
  then show ?thesis
    using take_90_headings by (simp add: section_headings_def)
qed

lemma sections_first_page:
  assumes "sections fmt font a (new_page (y, ops)) = Inr s'"
  shows "\<exists>rest. snd s' =
             ops @ ShowPage # SetFont font 16 # DrawString 50 (height - 50) heading_1 # rest
           \<and> marks rest = map Margin (tl section_headings)"
proof -
  let ?s1 = "add_heading font (new_page (y, ops)) heading_1 16"
  have 1: "seq (later_sections fmt font a) ?s1 = Inr s'"
    using assms by (simp add: sections_split)
  obtain rest where rest: "snd s' = snd ?s1 @ rest" "marks rest = map Margin (tl section_headings)"
    using addsD [OF adds_later_sections 1] by blast
  have "take 90 heading_1 = heading_1"
    using take_90_headings by (simp add: section_headings_def)
  then have "snd ?s1 = ops @ [ShowPage, SetFont font 16, DrawString 50 (height - 50) heading_1]"
    by (simp add: snd_add_heading height_def)
  with rest show ?thesis by simp
qed

lemma sections_marks:
  assumes "sections fmt font a (new_page (y, ops)) = Inr s'"
  shows "marks (snd s') = marks ops @ map Margin section_headings"
proof -
  obtain rest where "snd s' =
      ops @ ShowPage # SetFont font 16 # DrawString 50 (height - 50) heading_1 # rest"
    "marks rest = map Margin (tl section_headings)"
    using sections_first_page [OF assms] by blast
  then show ?thesis by (simp add: section_headings_def)
qed

lemma draw_image_marks:
  "marks (snd (draw_image g font ib s)) =
     marks (snd s) @
       (if readable g (snd ib) then [Picture (snd ib), Margin (lbl_image @ str_of_nat (fst ib))] else [])"
  by (cases g) (simp_all add: draw_image_def read_image_def readable_def Let_def)

lemma fold_draw_image_marks:
  "marks (snd (fold (draw_image g font) ibs s)) =
     marks (snd s) @
       concat (map (\<lambda>ib. [Picture (snd ib), Margin (lbl_image @ str_of_nat (fst ib))])
                 (filter (\<lambda>ib. readable g (snd ib)) ibs))"
  by (induction ibs arbitrary: s) (simp_all add: draw_image_marks)

lemma take_90_heading_8: "take 90 heading_8 = heading_8"
  by (simp add: heading_8_def u_def)

lemma take_90_heading_9: "take 90 heading_9 = heading_9"
  by (simp add: heading_9_def u_def)

lemma images_section_marks:
  "marks (snd (images_section g font images s)) = marks (snd s) @ image_marks g images"
  by (simp add: images_section_def image_marks_def fold_draw_image_marks take_90_heading_8
      split: option.splits)

lemma draw_prompt_marks: "marks (snd (draw_prompt font ip s)) = marks (snd s)"
  by (simp add: draw_prompt_def Let_def)

lemma fold_draw_prompt_marks: "marks (snd (fold (draw_prompt font) ips s)) = marks (snd s)"
  by (induction ips arbitrary: s) (simp_all add: draw_prompt_marks)

lemma prompts_section_marks:
  "marks (snd (prompts_section font vps s)) = marks (snd s) @ prompt_marks vps"
  by (simp add: prompts_section_def prompt_marks_def fold_draw_prompt_marks take_90_heading_9
      split: option.splits)

lemma cover_subject_record:
  assumes "subject_record policy"
  shows "cover fmt font policy = Inr (height - 165, cover_page font policy)"
proof -
  obtain kvs where p: "policy = JObj kvs"
    using assms by (cases policy) simp_all
  have t: "text_or_absent kvs (u ''title'')" "text_or_absent kvs (u ''category'')"
    "text_or_absent kvs (u ''target_audience'')" "text_or_absent kvs (u ''created_at'')"
    using assms p by simp_all
  show ?thesis
    using t unfolding p
    by (auto simp: cover_def cover_page_def cover_lines_def text_or_absent_def text_field_def
        fmt_get_def emit_def move_def Let_def split: option.splits json.splits)
qed

lemma marks_cover_page: "marks (cover_page font policy) = map Margin (cover_lines policy)"
  by (simp add: cover_page_def cover_lines_def)

text \<open>The report of a subject record with a truthy analysis is the path through the sections.\<close>

lemma report_truthy:
  assumes "subject_record policy" and "truthy analysis"
  shows "create_pdf_report_g g e policy analysis images vps =
           bind (sections (str_of e) (font_name e) analysis
                   (new_page (height - 165, cover_page (font_name e) policy)))
             (\<lambda>s. Inr (snd (emit Save
                (prompts_section (font_name e) vps (images_section g (font_name e) images s)))))"
  using assms by (simp add: create_pdf_report_g_def cover_subject_record)

lemma outline_lemma:
  assumes "subject_record policy" and "truthy analysis"
    and "create_pdf_report_g g e policy analysis images vps = Inr ops"
  shows "marks ops = outline g policy images vps"
proof -
  from assms(3) obtain s where
    s: "sections (str_of e) (font_name e) analysis
          (new_page (height - 165, cover_page (font_name e) policy)) = Inr s"
    and ops: "ops = snd (emit Save (prompts_section (font_name e) vps
                (images_section g (font_name e) images s)))"
    unfolding report_truthy [OF assms(1,2)] by (auto simp del: split_paired_Ex)
  have "marks (snd s) = map Margin (cover_lines policy) @ map Margin section_headings"
    using sections_marks [OF s] by (simp add: marks_cover_page)
  then show ?thesis
    by (simp add: ops outline_def prompts_section_marks images_section_marks)
qed

section \<open>Reports without section bodies\<close>

lemma absent_if_in: "map_of kvs k = None \<Longrightarrow> if_in k (JObj kvs) body s = Inr s"
  by (simp add: if_in_def)

lemma lacks_sectionsD:
  assumes "lacks_sections kvs"
  shows "map_of kvs (u ''policy_planning'') = None" "map_of kvs (u ''execution_plan'') = None"
    "map_of kvs (u ''communication_strategy'') = None" "map_of kvs (u ''content_briefs'') = None"
    "map_of kvs (u ''marketing_materials'') = None" "map_of kvs (u ''performance_metrics'') = None"
    "map_of kvs (u ''stakeholder_management'') = None"
  using assms by (simp_all add: lacks_sections_def section_keys_def)

lemma bodies_absent:
  "map_of kvs (u ''policy_planning'') = None \<Longrightarrow> body_1 fmt font (JObj kvs) s = Inr s"
  "map_of kvs (u ''execution_plan'') = None \<Longrightarrow> body_2 fmt font (JObj kvs) s = Inr s"
  "map_of kvs (u ''communication_strategy'') = None \<Longrightarrow> body_3 fmt font (JObj kvs) s = Inr s"
  "map_of kvs (u ''content_briefs'') = None \<Longrightarrow> body_4 fmt font (JObj kvs) s = Inr s"
  "map_of kvs (u ''marketing_materials'') = None \<Longrightarrow> body_5 fmt font (JObj kvs) s = Inr s"
  "map_of kvs (u ''performance_metrics'') = None \<Longrightarrow> body_6 fmt font (JObj kvs) s = Inr s"
  "map_of kvs (u ''stakeholder_management'') = None \<Longrightarrow> body_7 fmt font (JObj kvs) s = Inr s"
  by (simp_all add: body_1_def body_2_def body_3_def body_4_def body_5_def body_6_def body_7_def
      absent_if_in)

lemma present_if_in: "map_of kvs k = Some v \<Longrightarrow> if_in k (JObj kvs) body s = body v s"
  by (simp add: if_in_def)

lemma bodies_present:
  "map_of kvs (u ''policy_planning'') = Some v \<Longrightarrow> body_1 fmt font (JObj kvs) s = content_1 fmt font v s"
  "map_of kvs (u ''execution_plan'') = Some v \<Longrightarrow> body_2 fmt font (JObj kvs) s = content_2 fmt font v s"
  "map_of kvs (u ''communication_strategy'') = Some v \<Longrightarrow>
     body_3 fmt font (JObj kvs) s = content_3 fmt font v s"
  "map_of kvs (u ''content_briefs'') = Some v \<Longrightarrow> body_4 fmt font (JObj kvs) s = content_4 fmt font v s"
  "map_of kvs (u ''marketing_materials'') = Some v \<Longrightarrow>
     body_5 fmt font (JObj kvs) s = content_5 fmt font v s"
  "map_of kvs (u ''performance_metrics'') = Some v \<Longrightarrow>
     body_6 fmt font (JObj kvs) s = content_6 fmt font v s"
  "map_of kvs (u ''stakeholder_management'') = Some v \<Longrightarrow>
     body_7 fmt font (JObj kvs) s = content_7 fmt font v s"
  by (simp_all add: body_1_def body_2_def body_3_def body_4_def body_5_def body_6_def body_7_def
      present_if_in)

lemma sections_lacking_total:
  assumes "lacks_sections kvs"
  shows "\<exists>s'. sections fmt font (JObj kvs) s = Inr s'"
  by (simp add: sections_def say_def bodies_absent lacks_sectionsD [OF assms])

lemma sections_lacking_first_page:
  assumes "lacks_sections kvs"
  shows "sections fmt font (JObj kvs) (new_page (y, ops)) =
           Inr (height - 372, ops @ headings_page font)"
  by (simp add: sections_def say_def bodies_absent lacks_sectionsD [OF assms] headings_page_def
      section_headings_def add_heading_def room_def new_page_def emit_def move_def height_def Let_def
      take_90_headings [unfolded section_headings_def, simplified] enumerate_eq_zip)


lemma report_falsy:
  assumes "subject_record policy" and "\<not> truthy analysis"
  shows "create_pdf_report_g g e policy analysis images vps =
           Inr (cover_page (font_name e) policy @ [Save])"
  using assms by (simp add: create_pdf_report_g_def cover_subject_record)

lemma report_lacking_plain:
  assumes "subject_record policy" and "lacks_sections kvs" and "kvs \<noteq> []"
  shows "create_pdf_report_g g e policy (JObj kvs) None None =
           Inr (cover_page (font_name e) policy @ headings_page (font_name e) @ [Save])"
  using assms
  by (simp add: create_pdf_report_g_def cover_subject_record sections_lacking_first_page
      images_section_def prompts_section_def)

lemma report_lacking_total:
  assumes "subject_record policy" and "lacks_sections kvs"
  shows "\<exists>ops. create_pdf_report_g g e policy (JObj kvs) images vps = Inr ops"
proof -
  obtain s' where "sections (str_of e) (font_name e) (JObj kvs)
      (new_page (height - 165, cover_page (font_name e) policy)) = Inr s'"
    using sections_lacking_total [OF assms(2)] by blast
  then show ?thesis
    using assms(1) by (simp add: create_pdf_report_g_def cover_subject_record)
qed

lemma subject_record_clean_air: "subject_record clean_air"
  by (simp add: clean_air_def text_or_absent_def)

lemma cover_lines_clean_air:
  "cover_lines clean_air =
     [cover_title, lbl_title @ u ''Clean Air Policy'', lbl_category @ u ''Environment'',
      lbl_target @ u ''Citizens'', lbl_created @ u ''2024-01-01T00:00:00'']"
  by (simp add: cover_lines_def clean_air_def text_field_def u_def)

lemma lacks_sections_note: "lacks_sections (fields only_a_note)"
  by (simp add: lacks_sections_def section_keys_def only_a_note_def)

lemma marks_headings_page: "marks (headings_page font) = map Margin section_headings"
  by (simp add: headings_page_def section_headings_def enumerate_eq_zip)


section \<open>The canvas of the scenario\<close>

lemma height_bounds: "841 < height" "height < 842"
  by (simp_all add: height_def)

lemma room_high: "k \<le> 691 \<Longrightarrow> room (height - k, ops) = (height - k, ops)"
  using height_bounds by (simp add: room_def)

lemma add_heading_high:
  "k \<le> 741 \<Longrightarrow> add_heading font (height - k, ops) h 16 =
     (height - (k + 31), ops @ [SetFont font 16, DrawString 50 (height - k) (take 90 h)])"
  using height_bounds by (simp add: add_heading_def Let_def emit_def move_def)

lemma move_high: "move d (height - k, ops) = (height - (k + d), ops)"
  by (simp add: move_def)

lemma text_lines_short:
  assumes "t \<noteq> []" and "length t \<le> 85"
  shows "text_lines t (max_len indent) = [t]"
proof -
  have "(min (length t) 400 + max_len indent - 1) div max_len indent = 1"
  proof -
    have "Suc 0 \<le> length t" using assms(1) by (cases t) simp_all
    then show ?thesis
      using assms(2) by (auto intro!: div_nat_eqI simp: max_len_def)
  qed
  moreover have "length t \<le> max_len indent"
    using assms(2) by (simp add: max_len_def)
  ultimately show ?thesis
    by (simp add: text_lines_def py_range_def)
qed

lemma add_text_high:
  assumes "t \<noteq> []" and "length t \<le> 85" and "k \<le> 761"
  shows "add_text font (height - k, ops) t sz indent =
           (height - (k + of_nat sz + 9), ops @ [SetFont font sz, DrawString indent (height - k) t])"
  using assms height_bounds
  by (simp add: add_text_def text_lines_short Let_def emit_def move_def)

lemma objective_line_short: "objective_line \<noteq> []" "length objective_line \<le> 85"
  by (simp_all add: objective_line_def lbl_objective_def u_def)

lemma content_1_one_objective:
  assumes "k \<le> 761"
  shows "content_1 fmt font (JObj [(u ''objective'', JStr (u ''Reduce PM2.5 by 20%''))])
           (height - k, ops) =
     Inr (height - (k + 19), ops @ [SetFont font 10, DrawString 60 (height - k) objective_line])"
proof -
  have "u ''Reduce PM2.5 by 20%'' \<noteq> []"
    by (simp add: u_def)
  then show ?thesis
    using add_text_high [OF objective_line_short assms, of font ops 10 60]
    by (simp add: content_1_def if_get_def add_text_of_def labelled_def fmt_item_def
        objective_line_def)
qed

lemma sections_one_objective:
  "sections fmt font one_objective (new_page (y, ops)) =
     Inr (height - 391,
          ops @ [ShowPage,
            SetFont font 16, DrawString 50 (height - 50) heading_1,
            SetFont font 10, DrawString 60 (height - 81) objective_line,
            SetFont font 16, DrawString 50 (height - 115) heading_2,
            SetFont font 16, DrawString 50 (height - 161) heading_3,
            SetFont font 16, DrawString 50 (height - 207) heading_4,
            SetFont font 16, DrawString 50 (height - 253) heading_5,
            SetFont font 16, DrawString 50 (height - 299) heading_6,
            SetFont font 16, DrawString 50 (height - 345) heading_7])"
proof -
  have t: "take 90 heading_1 = heading_1" "take 90 heading_2 = heading_2"
    "take 90 heading_3 = heading_3" "take 90 heading_4 = heading_4"
    "take 90 heading_5 = heading_5" "take 90 heading_6 = heading_6"
    "take 90 heading_7 = heading_7"
    using take_90_headings by (simp_all add: section_headings_def)
  have b1: "body_1 fmt font one_objective (height - 81, xs) =
      Inr (height - 100, xs @ [SetFont font 10, DrawString 60 (height - 81) objective_line])" for xs
    using content_1_one_objective [of 81 fmt font xs]
    by (simp add: one_objective_def bodies_present)
  have absent: "body_2 fmt font one_objective s = Inr s" "body_3 fmt font one_objective s = Inr s"
    "body_4 fmt font one_objective s = Inr s" "body_5 fmt font one_objective s = Inr s"
    "body_6 fmt font one_objective s = Inr s" "body_7 fmt font one_objective s = Inr s" for s
    by (simp_all add: one_objective_def bodies_absent)
  show ?thesis
    by (simp add: sections_def say_def new_page_def room_high add_heading_high move_high
        b1 absent t)
qed


section \<open>Whole reports\<close>

lemma if_in_by_key:
  "if_in k (JObj kvs) body s = (case map_of kvs k of None \<Rightarrow> Inr s | Some v \<Rightarrow> body v s)"
  by (simp add: if_in_def split: option.splits)

lemma bodies_by_key:
  "map (\<lambda>b. b s) (section_bodies fmt font (JObj kvs)) =
     map (\<lambda>(k, c). case map_of kvs k of None \<Rightarrow> Inr s | Some v \<Rightarrow> c v s)
       (zip section_keys (section_contents fmt font))"
  unfolding section_bodies_def section_contents_def section_keys_def
    body_1_def body_2_def body_3_def body_4_def body_5_def body_6_def body_7_def if_in_by_key
  by simp


lemma draw_image_appends: "\<exists>new. snd (draw_image g font ib s) = snd s @ new"
  by (cases g) (simp_all add: draw_image_def read_image_def Let_def)

lemma fold_appends:
  assumes "\<And>x s. \<exists>new. snd (f x s) = snd s @ new"
  shows "\<exists>new. snd (fold f xs s) = snd s @ new"
proof (induction xs arbitrary: s)
  case Nil
  then show ?case by simp
next
  case (Cons x xs)
  obtain n1 where n1: "snd (f x s) = snd s @ n1"
    using assms by blast
  obtain n2 where n2: "snd (fold f xs (f x s)) = snd (f x s) @ n2"
    using Cons.IH by blast
  have "snd (fold f (x # xs) s) = snd s @ (n1 @ n2)"
    using n1 n2 by simp
  then show ?case by blast
qed

lemma images_section_appends: "\<exists>new. snd (images_section g font images s) = snd s @ new"
proof (cases "images = None \<or> images = Some []")
  case True
  then show ?thesis by (auto simp: images_section_def)
next
  case False
  then obtain imgs where i: "images = Some imgs" "imgs \<noteq> []" by auto
  let ?s1 = "add_heading font (room s) heading_8 16"
  obtain n1 where n1: "snd ?s1 = snd s @ n1"
    by (simp add: snd_add_heading snd_room)
  obtain n2 where n2: "snd (fold (draw_image g font) (enumerate 1 (take 4 imgs)) ?s1) = snd ?s1 @ n2"
    using fold_appends [of "draw_image g font", OF draw_image_appends] by blast
  have "snd (images_section g font images s) = snd s @ (n1 @ n2)"
    using i n1 n2 by (simp add: images_section_def)
  then show ?thesis by blast
qed

lemma draw_prompt_appends: "\<exists>new. snd (draw_prompt font ip s) = snd s @ new"
proof -
  let ?s1 = "room s"
  let ?s2 = "add_text font ?s1 (lbl_video @ str_of_nat (fst ip) @ u '']'') 11 60"
  obtain n1 where n1: "snd ?s1 = snd s @ n1"
    by (simp add: snd_room)
  obtain n2 where n2: "snd ?s2 = snd ?s1 @ n2"
    using add_text_appends [of 60 font ?s1] by auto
  obtain n3 where n3: "snd (add_text font ?s2 (take 600 (snd ip)) 9 70) = snd ?s2 @ n3"
    using add_text_appends [of 70 font ?s2] by auto
  have "snd (draw_prompt font ip s) = snd s @ (n1 @ n2 @ n3)"
    using n1 n2 n3 by (simp add: draw_prompt_def Let_def)
  then show ?thesis by blast
qed

lemma prompts_section_appends: "\<exists>new. snd (prompts_section font vps s) = snd s @ new"
proof (cases "vps = None \<or> vps = Some []")
  case True
  then show ?thesis by (auto simp: prompts_section_def)
next
  case False
  then obtain ps where i: "vps = Some ps" "ps \<noteq> []" by auto
  let ?s1 = "add_heading font (new_page s) heading_9 16"
  obtain n1 where n1: "snd ?s1 = snd s @ n1"
    by (simp add: snd_add_heading)
  obtain n2 where n2: "snd (fold (draw_prompt font) (enumerate 1 (take 9 ps)) ?s1) = snd ?s1 @ n2"
    using fold_appends [of "draw_prompt font", OF draw_prompt_appends] by blast
  have "snd (prompts_section font vps s) = snd s @ (n1 @ n2)"
    using i n1 n2 by (simp add: prompts_section_def)
  then show ?thesis by blast
qed


lemma report_null_section:
  "create_pdf_report_g g sample_env clean_air null_section images vps = Inl AttributeError"
proof -
  have t: "truthy null_section"
    by (simp add: null_section_def)
  have "body_1 fmt font null_section s = Inl AttributeError" for fmt font s
    by (simp add: null_section_def body_1_def if_in_def content_1_def if_get_def)
  then have "sections fmt font null_section s = Inl AttributeError" for fmt font s
    by (simp add: sections_def say_def)
  then show ?thesis
    unfolding report_truthy [OF subject_record_clean_air t] by simp
qed

section \<open>The cases of the analysis call\<close>










section \<open>Images and the order of the sections\<close>


lemma pictures_Nil [simp]: "pictures [] = []"
  by (simp add: pictures_def)

lemma pictures_append [simp]: "pictures (xs @ ys) = pictures xs @ pictures ys"
  by (simp add: pictures_def)

lemma pictures_Cons [simp]: "pictures (m # ms) = picture_of m @ pictures ms"
  by (simp add: pictures_def)

lemma pictures_Margins [simp]: "pictures (map Margin ts) = []"
  by (induction ts) simp_all












section \<open>The list fields of an analysis\<close>

lemma py_get_put:
  "py_get (put k v d) k' dflt = (if k' = k then Inr v else py_get (JObj (fields d)) k' dflt)"
  by (simp add: put_def)

lemma py_getitem_put:
  "py_getitem (put k v d) k' = (if k' = k then Inr v else py_getitem (JObj (fields d)) k')"
  by (simp add: put_def)

lemma if_in_put:
  "if_in key (put sec x a) body = (if key = sec then body x else if_in key (JObj (fields a)) body)"
  by (rule ext) (simp add: if_in_def put_def)



lemma if_get_put_other:
  "k' \<noteq> k \<Longrightarrow> if_get (put k v d) k' body = if_get (JObj (fields d)) k' body"
  by (rule ext) (simp add: if_get_def py_get_put)

lemma fmt_item_put_other:
  "k' \<noteq> k \<Longrightarrow> fmt_item fmt (put k v d) k' = fmt_item fmt (JObj (fields d)) k'"
  by (simp add: fmt_item_def py_getitem_put)

lemma for_sliced_put_other:
  "k' \<noteq> k \<Longrightarrow> for_sliced (put k v d) k' n body = for_sliced (JObj (fields d)) k' n body"
  by (rule ext) (simp add: for_sliced_def py_getitem_put)

lemma py_getitem_put_other:
  "k' \<noteq> k \<Longrightarrow> py_getitem (put k v d) k' = py_getitem (JObj (fields d)) k'"
  by (simp add: py_getitem_put)

lemmas put_other = if_get_put_other fmt_item_put_other for_sliced_put_other py_getitem_put_other




lemma content_2_risks:
  "content_2 fmt font (put (u ''risk_management'') v d) =
   content_2 fmt font (JObj (fields d))"
  unfolding content_2_def by (simp add: put_other)









lemma body_put:
  "body_1 fmt font (put sec x a) =
     (if u ''policy_planning'' = sec then content_1 fmt font x
      else if_in (u ''policy_planning'') (JObj (fields a)) (content_1 fmt font))"
  "body_2 fmt font (put sec x a) =
     (if u ''execution_plan'' = sec then content_2 fmt font x
      else if_in (u ''execution_plan'') (JObj (fields a)) (content_2 fmt font))"
  "body_3 fmt font (put sec x a) =
     (if u ''communication_strategy'' = sec then content_3 fmt font x
      else if_in (u ''communication_strategy'') (JObj (fields a)) (content_3 fmt font))"
  "body_4 fmt font (put sec x a) =
     (if u ''content_briefs'' = sec then content_4 fmt font x
      else if_in (u ''content_briefs'') (JObj (fields a)) (content_4 fmt font))"
  "body_5 fmt font (put sec x a) =
     (if u ''marketing_materials'' = sec then content_5 fmt font x
      else if_in (u ''marketing_materials'') (JObj (fields a)) (content_5 fmt font))"
  "body_6 fmt font (put sec x a) =
     (if u ''performance_metrics'' = sec then content_6 fmt font x
      else if_in (u ''performance_metrics'') (JObj (fields a)) (content_6 fmt font))"
  "body_7 fmt font (put sec x a) =
     (if u ''stakeholder_management'' = sec then content_7 fmt font x
      else if_in (u ''stakeholder_management'') (JObj (fields a)) (content_7 fmt font))"
  by (simp_all add: body_1_def body_2_def body_3_def body_4_def body_5_def body_6_def body_7_def
      if_in_put)

lemma report_by_bodies:
  assumes "truthy a = truthy b"
    and "body_1 (str_of e) (font_name e) a = body_1 (str_of e) (font_name e) b"
    and "body_2 (str_of e) (font_name e) a = body_2 (str_of e) (font_name e) b"
    and "body_3 (str_of e) (font_name e) a = body_3 (str_of e) (font_name e) b"
    and "body_4 (str_of e) (font_name e) a = body_4 (str_of e) (font_name e) b"
    and "body_5 (str_of e) (font_name e) a = body_5 (str_of e) (font_name e) b"
    and "body_6 (str_of e) (font_name e) a = body_6 (str_of e) (font_name e) b"
    and "body_7 (str_of e) (font_name e) a = body_7 (str_of e) (font_name e) b"
  shows "create_pdf_report_g g e policy a images vps = create_pdf_report_g g e policy b images vps"
proof -
  have "sections (str_of e) (font_name e) a = sections (str_of e) (font_name e) b"
    by (rule ext) (simp only: sections_def assms)
  then show ?thesis
    by (simp only: create_pdf_report_g_def assms(1))
qed

lemma truthy_put [simp]: "truthy (put k v d)"
  by (simp add: put_def)




lemma report_ignores_risks:
  "create_pdf_report_g g e policy (put_in (u ''execution_plan'') (u ''risk_management'') v a) images vps =
   create_pdf_report_g g e policy (put_in (u ''execution_plan'') (u ''risk_management'') v' a) images vps"
  by (rule report_by_bodies; simp add: put_in_def [of _ _ _ a] body_put content_2_risks)










section \<open>The paragraph primitive\<close>

text \<open>
  C7 (as stated, refuted): \<open>add_text\<close> is claimed to draw at most the first 400
  characters of its text. The bound 400 only limits where a slice may start: at the body
  indent the last slice starts at 340 and is 85 long, so a text of 425 characters is
  drawn whole.
\<close>

theorem add_text_draws_beyond_400:
  "\<not> length (concat (drawn_texts (snd (add_text font_fallback (700, []) (replicate 425 97) 10 60))))
        \<le> 400"
proof -
  have "concat (text_lines (replicate 425 97) (max_len 60)) = take (5 * max_len 60) (replicate 425 97)"
    using concat_text_lines [of "replicate 425 97" 60] by simp
  then have "length (concat (text_lines (replicate 425 97) (max_len 60))) = 425"
    by (simp add: max_len_def)
  then show ?thesis
    by (simp add: add_text_texts)
qed

text \<open>
  C7 (amended): \<open>add_text\<close> slices its text by character position alone. After what the
  canvas already shows it draws the slices \<open>text[k*m : (k+1)*m]\<close> for \<open>k\<close> below the
  number of slice starts under \<open>min(len(text), 400)\<close>, with \<open>m = 85\<close> at indent 60 and
  \<open>m = 90\<close> at every other indent. These are at most 5 slices (the cap of 10 lines never
  applies), and together they are the whole text when it has at most 400 characters and
  its first \<open>5 * m\<close> characters (425 or 450) otherwise; the rest is dropped.
\<close>

theorem add_text_slices_by_position:
  "drawn_texts (snd (add_text font s t sz indent)) =
     drawn_texts (snd s) @
       map (\<lambda>k. take (max_len indent) (drop (k * max_len indent) t))
         [0..<(min (length t) 400 + max_len indent - 1) div max_len indent]
   \<and> (min (length t) 400 + max_len indent - 1) div max_len indent \<le> 5
   \<and> concat (map (\<lambda>k. take (max_len indent) (drop (k * max_len indent) t))
         [0..<(min (length t) 400 + max_len indent - 1) div max_len indent]) =
       (if length t \<le> 400 then t else take (5 * max_len indent) t)
   \<and> max_len indent = (if indent = 60 then 85 else 90)"
proof -
  have "drawn_texts (snd (add_text font s t sz indent)) =
          drawn_texts (snd s) @ text_lines t (max_len indent)"
    by (rule add_text_texts)
  moreover have "concat (text_lines t (max_len indent)) =
          (if length t \<le> 400 then t else take (5 * max_len indent) t)"
    by (rule concat_text_lines)
  ultimately show ?thesis
    using line_count_le_5 [of t indent]
    by (simp add: text_lines_chunks max_len_def)
qed

theorem add_text_slices_by_position_witness:
  "drawn_texts (snd (add_text font_fallback (700, []) (u ''Reduce PM2.5 by 20%'') 10 60)) =
     [u ''Reduce PM2.5 by 20%'']"
  using add_text_slices_by_position [of font_fallback "(700, [])" "u ''Reduce PM2.5 by 20%''" 10 60]
  by (simp add: max_len_def u_def)

section \<open>Reports for an analysis without sections\<close>

text \<open>
  C1 (as stated, refuted): an analysis mapping without any of the seven section keys is
  claimed to give the cover block only. The mapping \<open>{"note": "pending"}\<close> is not
  empty, so the renderer goes on after the cover, and each of the seven headings is
  drawn before the membership test of its section.
\<close>

theorem analysis_without_sections_shows_headings:
  "map_sum id marks (create_pdf_report sample_env clean_air only_a_note None None) =
     Inr (map Margin (cover_lines clean_air) @
          map Margin [heading_1, heading_2, heading_3, heading_4, heading_5, heading_6, heading_7])"
proof -
  have "create_pdf_report sample_env clean_air (JObj (fields only_a_note)) None None =
      Inr (cover_page (font_name sample_env) clean_air @ headings_page (font_name sample_env) @ [Save])"
    unfolding create_pdf_report_def
    by (rule report_lacking_plain [OF subject_record_clean_air lacks_sections_note])
       (simp add: only_a_note_def)
  then show ?thesis
    by (simp add: only_a_note_def marks_cover_page marks_headings_page section_headings_def)
qed

text \<open>
  C1 (amended): for a subject record and an analysis mapping without any of the seven
  section keys, \<open>create_pdf_report\<close> raises nothing and returns a non-empty document.
  Without images and video prompts the document is the cover block alone when the
  mapping is empty, and the cover block followed by one page with the seven numbered
  headings and no body text when the mapping is not empty. With images or video prompts
  the outline of the document is the cover for an empty mapping, and otherwise the cover,
  the seven headings, and the image and video prompt sections.
\<close>

theorem report_without_sections:
  assumes "subject_record policy" and "lacks_sections kvs"
  shows "create_pdf_report e policy (JObj kvs) None None =
           Inr (cover_page (font_name e) policy @
                (if kvs = [] then [] else headings_page (font_name e)) @ [Save])
       \<and> (\<exists>ops. create_pdf_report e policy (JObj kvs) images vps = Inr ops \<and> ops \<noteq> [] \<and>
             marks ops = (if kvs = [] then map Margin (cover_lines policy)
                          else outline module_ImageReader policy images vps))"
proof (cases "kvs = []")
  case True
  then show ?thesis
    using assms(1)
    by (simp add: create_pdf_report_def report_falsy marks_cover_page)
next
  case False
  obtain ops where ops: "create_pdf_report e policy (JObj kvs) images vps = Inr ops"
    using report_lacking_total [OF assms] unfolding create_pdf_report_def by blast
  have m: "marks ops = outline module_ImageReader policy images vps"
    using outline_lemma [OF assms(1) _ ops [unfolded create_pdf_report_def]] False by simp
  have "outline module_ImageReader policy images vps \<noteq> []"
    by (simp add: outline_def cover_lines_def)
  with m have "ops \<noteq> []" by auto
  with ops m False show ?thesis
    using report_lacking_plain [OF assms False]
    by (simp add: create_pdf_report_def)
qed

theorem report_without_sections_witness:
  "create_pdf_report sample_env clean_air only_a_note None None =
     Inr (cover_page font_cid clean_air @ headings_page font_cid @ [Save])"
  using report_without_sections [OF subject_record_clean_air lacks_sections_note, of sample_env]
  by (simp add: only_a_note_def font_name_def sample_env_def)

text \<open>
  C6: when the analysis is \<open>None\<close>, \<open>create_pdf_report\<close> succeeds for every subject
  record, image list and list of video prompts, and returns the cover block followed by
  \<open>save\<close>: five lines at the left margin, no page break and no numbered section.
\<close>

theorem report_without_analysis:
  assumes "subject_record policy"
  shows "create_pdf_report e policy JNull images vps = Inr (cover_page (font_name e) policy @ [Save])
       \<and> marks (cover_page (font_name e) policy @ [Save]) = map Margin (cover_lines policy)
       \<and> ShowPage \<notin> set (cover_page (font_name e) policy @ [Save])"
  using assms
  by (simp add: create_pdf_report_def report_falsy marks_cover_page) (simp add: cover_page_def)

theorem report_without_analysis_witness:
  "create_pdf_report sample_env clean_air JNull (Some five_blobs) (Some [u ''a prompt'']) =
     Inr (cover_page font_cid clean_air @ [Save])"
  using report_without_analysis [OF subject_record_clean_air, of sample_env]
  by (simp add: font_name_def sample_env_def)

text \<open>
  C10: an empty mapping is rendered as an absent analysis is, which for a subject record
  is the cover-only document. A mapping that is not empty is never rendered that way: its
  result is the result of the seven sections run on a new page after the cover, followed
  by the image and video prompt sections and \<open>save\<close>, or the exception a section raised.
  Each of the seven bodies does nothing when its key is absent and runs the content of its
  section on the value of the key otherwise. When a document is returned, it starts with
  the cover, a page break and the first heading at the top of the second page, and its
  outline has the seven numbered headings; one is returned when the mapping has none
  of the seven keys.
\<close>

theorem empty_mapping_as_absent:
  assumes "subject_record policy" and "kvs \<noteq> []"
  shows "create_pdf_report e policy (JObj []) images vps =
           create_pdf_report e policy JNull images vps
       \<and> create_pdf_report e policy JNull images vps =
           Inr (cover_page (font_name e) policy @ [Save])
       \<and> create_pdf_report e policy (JObj kvs) images vps =
           bind (sections (str_of e) (font_name e) (JObj kvs)
                   (new_page (height - 165, cover_page (font_name e) policy)))
             (\<lambda>s. Inr (snd (emit Save (prompts_section (font_name e) vps
                (images_section module_ImageReader (font_name e) images s)))))
       \<and> create_pdf_report e policy (JObj kvs) images vps \<noteq>
           create_pdf_report e policy JNull images vps
       \<and> map (\<lambda>b. b s) (section_bodies (str_of e) (font_name e) (JObj kvs)) =
           map (\<lambda>(k, c). case map_of kvs k of None \<Rightarrow> Inr s | Some v \<Rightarrow> c v s)
             (zip section_keys (section_contents (str_of e) (font_name e)))
       \<and> (\<forall>ops. create_pdf_report e policy (JObj kvs) images vps = Inr ops \<longrightarrow>
             marks ops = outline module_ImageReader policy images vps \<and>
             (\<exists>rest. ops = cover_page (font_name e) policy @ ShowPage # SetFont (font_name e) 16 #
                        DrawString 50 (height - 50) heading_1 # rest))
       \<and> (lacks_sections kvs \<longrightarrow>
             (\<exists>ops. create_pdf_report e policy (JObj kvs) images vps = Inr ops))"
proof -
  let ?f = "font_name e"
  have t: "truthy (JObj kvs)"
    using assms(2) by simp
  have 1: "create_pdf_report e policy (JObj []) images vps =
      create_pdf_report e policy JNull images vps"
    by (simp add: create_pdf_report_def create_pdf_report_g_def)
  have 2: "create_pdf_report e policy JNull images vps = Inr (cover_page ?f policy @ [Save])"
    using assms(1) by (simp add: create_pdf_report_def report_falsy)
  have 3: "create_pdf_report e policy (JObj kvs) images vps =
      bind (sections (str_of e) ?f (JObj kvs) (new_page (height - 165, cover_page ?f policy)))
        (\<lambda>s. Inr (snd (emit Save (prompts_section ?f vps
                (images_section module_ImageReader ?f images s)))))"
    unfolding create_pdf_report_def by (rule report_truthy [OF assms(1) t])
  have 5: "marks ops = outline module_ImageReader policy images vps \<and>
      (\<exists>rest. ops = cover_page ?f policy @ ShowPage # SetFont ?f 16 #
                 DrawString 50 (height - 50) heading_1 # rest)"
    if r: "create_pdf_report e policy (JObj kvs) images vps = Inr ops" for ops
  proof -
    have m: "marks ops = outline module_ImageReader policy images vps"
      using outline_lemma [OF assms(1) t r [unfolded create_pdf_report_def]] .
    from r obtain s' where
      s': "sections (str_of e) ?f (JObj kvs) (new_page (height - 165, cover_page ?f policy)) = Inr s'"
      and ops: "ops = snd (emit Save (prompts_section ?f vps
                  (images_section module_ImageReader ?f images s')))"
      unfolding 3 by (auto simp del: split_paired_Ex)
    obtain r1 where r1: "snd s' = cover_page ?f policy @ ShowPage # SetFont ?f 16 #
        DrawString 50 (height - 50) heading_1 # r1"
      using sections_first_page [OF s'] by blast
    obtain r2 where r2: "snd (images_section module_ImageReader ?f images s') = snd s' @ r2"
      using images_section_appends by blast
    obtain r3 where r3: "snd (prompts_section ?f vps (images_section module_ImageReader ?f images s'))
        = snd (images_section module_ImageReader ?f images s') @ r3"
      using prompts_section_appends by blast
    have "ops = cover_page ?f policy @ ShowPage # SetFont ?f 16 #
        DrawString 50 (height - 50) heading_1 # (r1 @ r2 @ r3 @ [Save])"
      by (simp add: ops r1 r2 r3)
    with m show ?thesis by blast
  qed
  have 4: "create_pdf_report e policy (JObj kvs) images vps \<noteq>
      create_pdf_report e policy JNull images vps"
  proof
    assume "create_pdf_report e policy (JObj kvs) images vps =
      create_pdf_report e policy JNull images vps"
    then have "create_pdf_report e policy (JObj kvs) images vps =
        Inr (cover_page ?f policy @ [Save])"
      using 2 by simp
    from 5 [OF this] show False
      by (simp add: cover_page_def)
  qed
  have 6: "\<exists>ops. create_pdf_report e policy (JObj kvs) images vps = Inr ops"
    if "lacks_sections kvs"
    using report_lacking_total [OF assms(1) that] by (simp add: create_pdf_report_def)
  from 1 2 3 4 5 6 bodies_by_key show ?thesis by blast
qed

theorem empty_mapping_as_absent_witness:
  "create_pdf_report sample_env clean_air (JObj []) None None =
     create_pdf_report sample_env clean_air JNull None None
   \<and> create_pdf_report sample_env clean_air one_objective None None =
       Inr (cover_page font_cid clean_air @
            [ShowPage,
             SetFont font_cid 16, DrawString 50 (height - 50) heading_1,
             SetFont font_cid 10, DrawString 60 (height - 81) objective_line,
             SetFont font_cid 16, DrawString 50 (height - 115) heading_2,
             SetFont font_cid 16, DrawString 50 (height - 161) heading_3,
             SetFont font_cid 16, DrawString 50 (height - 207) heading_4,
             SetFont font_cid 16, DrawString 50 (height - 253) heading_5,
             SetFont font_cid 16, DrawString 50 (height - 299) heading_6,
             SetFont font_cid 16, DrawString 50 (height - 345) heading_7,
             Save])
   \<and> create_pdf_report sample_env clean_air null_section None None = Inl AttributeError"
proof -
  have f: "font_name sample_env = font_cid"
    by (simp add: font_name_def sample_env_def)
  have a: "JObj (fields one_objective) = one_objective" "fields one_objective \<noteq> []"
    by (simp_all add: one_objective_def)
  have b: "JObj (fields null_section) = null_section" "fields null_section \<noteq> []"
    by (simp_all add: null_section_def)
  have n: "sections fmt font null_section s = Inl AttributeError" for fmt font s
    by (simp add: sections_def say_def null_section_def body_1_def if_in_def content_1_def
        if_get_def)
  note t1 = empty_mapping_as_absent [OF subject_record_clean_air a(2), of sample_env None None,
      unfolded a(1) f]
  note t2 = empty_mapping_as_absent [OF subject_record_clean_air b(2), of sample_env None None,
      unfolded b(1) f]
  from t1 have "create_pdf_report sample_env clean_air (JObj []) None None =
      create_pdf_report sample_env clean_air JNull None None" by blast
  moreover from t1 have "create_pdf_report sample_env clean_air one_objective None None =
      bind (sections (str_of sample_env) font_cid one_objective
              (new_page (height - 165, cover_page font_cid clean_air)))
        (\<lambda>s. Inr (snd (emit Save (prompts_section font_cid None
                (images_section module_ImageReader font_cid None s)))))" by blast
  moreover from t2 have "create_pdf_report sample_env clean_air null_section None None =
      bind (sections (str_of sample_env) font_cid null_section
              (new_page (height - 165, cover_page font_cid clean_air)))
        (\<lambda>s. Inr (snd (emit Save (prompts_section font_cid None
                (images_section module_ImageReader font_cid None s)))))" by blast
  ultimately show ?thesis
    by (simp add: sections_one_objective n images_section_def prompts_section_def)
qed

section \<open>The retry of the analysis call\<close>




section \<open>The order of the sections\<close>




section \<open>Images\<close>





section \<open>The caps of the lists\<close>




end
